theory Spec2Isabelle
  imports Main "HOL-Library.Char_ord" "HOL-Library.List_Lexorder"
begin

section \<open>Strings and paths\<close>

text \<open>
  Python strings are modelled as \<^typ>\<open>string\<close>, a \<^typ>\<open>char\<close> being a code point below 256.
  On these \<open>str.lower\<close> changes exactly the letters A to Z and the capital letters
  0xC0 to 0xDE other than the multiplication sign 0xD7, each to the code point 32 above,
  and \<open>str.strip\<close> removes exactly the characters for which \<open>str.isspace\<close> holds: tab,
  line feed, vertical tab, form feed, carriage return, the four separators 0x1C to 0x1F,
  space, next line 0x85 and no-break space 0xA0.
\<close>

definition lower_char :: "char \<Rightarrow> char" where
  "lower_char c =
     (let n = (of_char c :: nat) in
      if (65 \<le> n \<and> n \<le> 90) \<or> (192 \<le> n \<and> n \<le> 222 \<and> n \<noteq> 215)
      then char_of (n + 32) else c)"

definition str_lower :: "string \<Rightarrow> string" where
  "str_lower s = map lower_char s"

definition is_space :: "char \<Rightarrow> bool" where
  "is_space c =
     (let n = (of_char c :: nat) in
      (9 \<le> n \<and> n \<le> 13) \<or> (28 \<le> n \<and> n \<le> 32) \<or> n = 133 \<or> n = 160)"

definition str_strip :: "string \<Rightarrow> string" where
  "str_strip s = rev (dropWhile is_space (rev (dropWhile is_space s)))"

text \<open>\<open>sub in s\<close>: the substring test.\<close>

fun str_contains :: "string \<Rightarrow> string \<Rightarrow> bool" where
  "str_contains sub [] = (sub = [])"
| "str_contains sub (c # cs) = (take (length sub) (c # cs) = sub \<or> str_contains sub cs)"

definition str_endswith :: "string \<Rightarrow> string \<Rightarrow> bool" where
  "str_endswith s suf = (length suf \<le> length s \<and> drop (length s - length suf) s = suf)"

text \<open>\<open>url.rsplit("/", 1)[-1]\<close>: what follows the last slash, the whole string without one.\<close>

definition rsplit_last :: "string \<Rightarrow> string" where
  "rsplit_last u = rev (takeWhile (\<lambda>c. c \<noteq> CHR ''/'') (rev u))"

text \<open>\<open>line.split(",", 1)[0]\<close>: what precedes the first comma.\<close>

definition split_first :: "string \<Rightarrow> string" where
  "split_first line = takeWhile (\<lambda>c. c \<noteq> CHR '','') line"

text \<open>\<open>region.replace(".", "")\<close>.\<close>

definition remove_dots :: "string \<Rightarrow> string" where
  "remove_dots r = filter (\<lambda>c. c \<noteq> CHR ''.'') r"

text \<open>\<open>os.path.join\<close> and \<open>os.path.dirname\<close> of \<open>posixpath\<close>.\<close>

definition join2 :: "string \<Rightarrow> string \<Rightarrow> string" where
  "join2 path b =
     (if b \<noteq> [] \<and> hd b = CHR ''/'' then b
      else if path = [] \<or> last path = CHR ''/'' then path @ b
      else path @ ''/'' @ b)"

definition os_path_join :: "string \<Rightarrow> string list \<Rightarrow> string" where
  "os_path_join a ps = foldl join2 a ps"

definition os_path_dirname :: "string \<Rightarrow> string" where
  "os_path_dirname p =
     (let head = rev (dropWhile (\<lambda>c. c \<noteq> CHR ''/'') (rev p)) in
      if head \<noteq> [] \<and> \<not> list_all (\<lambda>c. c = CHR ''/'') head
      then rev (dropWhile (\<lambda>c. c = CHR ''/'') (rev head))
      else head)"

section \<open>Exceptions\<close>

text \<open>
  An exception is its class and the text \<open>str(exc)\<close> gives. The classes are the ones the
  handlers of \<open>download_task\<close> tell apart: \<open>URLError\<close> (with its subclasses),
  \<open>TimeoutError\<close>, \<open>IOError\<close> (every other \<open>OSError\<close>), and \<open>OtherError\<close> for
  everything that is not an \<open>OSError\<close> (\<open>ValueError\<close>, \<open>http.client.HTTPException\<close>).
\<close>

datatype exc_class = URLError | IOError | TimeoutError | OtherError

datatype exc = Exc exc_class string

fun exc_class_of :: "exc \<Rightarrow> exc_class" where
  "exc_class_of (Exc c m) = c"

fun str_exc :: "exc \<Rightarrow> string" where
  "str_exc (Exc c m) = m"

section \<open>Manifest resolution\<close>

text \<open>
  The source tree as \<open>os.listdir\<close>, \<open>os.path.isdir\<close> and \<open>open\<close> see it: a directory is
  the list of its entries in listing order, a text file is the list of the lines that
  iterating over its handle yields. Opening a directory raises.
\<close>

datatype node = TextFile "string list" | Directory "(string \<times> node) list"

record task =
  region :: string
  url :: string
  output_path :: string

type_synonym resolved = "task list \<times> (string \<times> string) list"

fun open_text :: "node \<Rightarrow> exc + string list" where
  "open_text (TextFile ls) = Inr ls"
| "open_text (Directory es) = Inl (Exc IOError ''[Errno 21] Is a directory'')"

definition url_map_line :: "(string \<rightharpoonup> string) \<Rightarrow> string \<Rightarrow> (string \<rightharpoonup> string)" where
  "url_map_line url_map line =
     (let u = str_strip line in
      if u = [] then url_map else url_map(rsplit_last u \<mapsto> u))"

definition read_url_map :: "node \<Rightarrow> exc + (string \<rightharpoonup> string)" where
  "read_url_map csv =
     (case open_text csv of
        Inl e \<Rightarrow> Inl e
      | Inr ls \<Rightarrow> Inr (foldl url_map_line Map.empty ls))"

definition split_from_manifest :: "string \<Rightarrow> string option" where
  "split_from_manifest filename =
     (let lowered = str_lower filename in
      if str_contains ''train'' lowered then Some ''train''
      else if str_contains ''val'' lowered then Some ''val''
      else if str_contains ''test'' lowered then Some ''test''
      else None)"

text \<open>The body of the loop over the lines of one manifest (source lines 98 to 117).\<close>

definition collect_line ::
  "string \<Rightarrow> string \<Rightarrow> string \<Rightarrow> string \<Rightarrow> (string \<rightharpoonup> string) \<Rightarrow> resolved \<Rightarrow> string \<Rightarrow> resolved" where
  "collect_line output_root dtype reg split url_map acc raw =
     (let line = str_strip raw in
      if line = [] then acc
      else
        let tile_name = split_first line;
            region_prefix = remove_dots reg;
            output_name = region_prefix @ ''_'' @ tile_name;
            output_dir = os_path_join output_root [split, dtype];
            out = os_path_join output_dir [output_name]
        in case url_map tile_name of
             None \<Rightarrow> (fst acc, snd acc @ [(reg, tile_name)])
           | Some u \<Rightarrow> (fst acc @ [\<lparr>region = reg, url = u, output_path = out\<rparr>], snd acc))"

text \<open>A loop whose body may raise: the first exception ends it.\<close>

fun for_each :: "('s \<Rightarrow> 'a \<Rightarrow> exc + 's) \<Rightarrow> 's \<Rightarrow> 'a list \<Rightarrow> exc + 's" where
  "for_each f s [] = Inr s"
| "for_each f s (x # xs) = (case f s x of Inl e \<Rightarrow> Inl e | Inr s' \<Rightarrow> for_each f s' xs)"

definition collect_manifest ::
  "string \<Rightarrow> string \<Rightarrow> string \<Rightarrow> (string \<rightharpoonup> string) \<Rightarrow> resolved \<Rightarrow> string \<times> node \<Rightarrow> exc + resolved" where
  "collect_manifest output_root dtype reg url_map acc manifest =
     (case split_from_manifest (fst manifest) of
        None \<Rightarrow> Inr acc
      | Some split \<Rightarrow>
          (case open_text (snd manifest) of
             Inl e \<Rightarrow> Inl e
           | Inr ls \<Rightarrow> Inr (foldl (collect_line output_root dtype reg split url_map) acc ls)))"

definition collect_region ::
  "string \<Rightarrow> string \<Rightarrow> resolved \<Rightarrow> string \<times> node \<Rightarrow> exc + resolved" where
  "collect_region output_root dtype acc entry =
     (case snd entry of
        TextFile ls \<Rightarrow> Inr acc
      | Directory es \<Rightarrow>
          (let csv_files = filter (\<lambda>e. str_endswith (str_lower (fst e)) ''.csv'') es in
           case csv_files of
             [] \<Rightarrow> Inr acc
           | csv # rest \<Rightarrow>
               (case read_url_map (snd csv) of
                  Inl e \<Rightarrow> Inl e
                | Inr url_map \<Rightarrow>
                    (let manifest_files =
                           filter (\<lambda>e. str_endswith (str_lower (fst e)) ''.txt'') es
                     in for_each (collect_manifest output_root dtype (fst entry) url_map)
                          acc manifest_files))))"

definition collect_folder ::
  "(string \<times> node) list \<Rightarrow> string \<Rightarrow> resolved \<Rightarrow> string \<times> string \<Rightarrow> exc + resolved" where
  "collect_folder source_root output_root acc fd =
     (case map_of source_root (fst fd) of
        None \<Rightarrow> Inr acc
      | Some (TextFile ls) \<Rightarrow> Inr acc
      | Some (Directory es) \<Rightarrow>
          for_each (collect_region output_root (snd fd)) acc (sort_key fst es))"

definition collect_tasks :: "(string \<times> node) list \<Rightarrow> string \<Rightarrow> exc + resolved" where
  "collect_tasks source_root output_root =
     for_each (collect_folder source_root output_root) ([], [])
       [(''DSMs'', ''dsm''), (''DTMs'', ''dtm'')]"

section \<open>The download worker\<close>

text \<open>\<open>str(n)\<close> for an integer: decimal digits, with a minus sign below zero.\<close>

definition digit_char :: "nat \<Rightarrow> char" where
  "digit_char d = char_of (48 + d)"

function str_nat :: "nat \<Rightarrow> string" where
  "str_nat n = (if n < 10 then [digit_char n] else str_nat (n div 10) @ [digit_char (n mod 10)])"
  by pat_completeness auto
termination
  by (relation "measure id") auto

declare str_nat.simps [simp del]

definition str_int :: "int \<Rightarrow> string" where
  "str_int i = (if i < 0 then ''-'' @ str_nat (nat (- i)) else str_nat (nat i))"

text \<open>
  The environment of a run. \<open>head_response\<close> is what the \<open>HEAD\<close> request of
  \<open>get_remote_size\<close> meets for a URL: an exception, or the \<open>Content-Length\<close> header as
  \<open>int\<close> reads it. \<open>get_response\<close> is what \<open>urlopen(url, timeout=60)\<close> meets: an
  exception, or a response whose successive \<open>read\<close> calls give the listed results and an
  empty chunk from then on, so a body is finite and the copying loop ends.
  \<open>fault\<close> says which file-system calls raise, each call site of \<open>download_task\<close> and
  \<open>main\<close> having its own constructor; \<open>os.path.exists\<close>, \<open>os.listdir\<close> and closing a
  file are taken not to raise. \<open>NotAnInteger\<close> stands for a header on which \<open>int\<close> raises
  \<open>ValueError\<close>. The environment is fixed during a run: the remote does not change.
\<close>

datatype content_length = NoHeader | NotAnInteger | Length int

datatype read_result = Chunk string | ReadRaises exc

datatype fs_op =
    Makedirs string
  | RemoveStale string
  | OpenWrite string
  | Write string nat
  | Getsize string
  | Replace string string
  | RemoveCleanup string
  | OpenLog string

record env =
  head_response :: "string \<Rightarrow> exc + content_length"
  get_response :: "string \<Rightarrow> exc + read_result list"
  fault :: "fs_op \<Rightarrow> exc option"

text \<open>
  The state a run changes: the files that \<open>os.path.exists\<close> sees, with their contents
  (\<open>os.path.getsize\<close> is the length), the directories \<open>os.makedirs\<close> has made, the
  shared list \<open>failures\<close>, and what was printed. \<open>requests\<close> records every
  \<open>urlopen\<close> call, so that a transfer is observable. A file is known by the path string
  the program passes: two spellings of one path are two files here, so a statement that
  compares paths is about paths that are spelled in one way, on a file system that tells
  upper from lower case and has no links under the output root.
\<close>

datatype http_method = HEAD | GET

record world =
  files :: "string \<rightharpoonup> string"
  dirs :: "string set"
  failures :: "(string \<times> string \<times> string) list"
  requests :: "(http_method \<times> string) list"
  printed :: "string list"

datatype outcome = Returned | Raised exc

definition get_remote_size :: "env \<Rightarrow> string \<Rightarrow> exc + int option" where
  "get_remote_size env u =
     (case head_response env u of
        Inl e \<Rightarrow> Inl e
      | Inr NoHeader \<Rightarrow> Inr None
      | Inr NotAnInteger \<Rightarrow> Inr None
      | Inr (Length n) \<Rightarrow> Inr (Some n))"

text \<open>Source lines 140 to 143: only \<open>URLError\<close> turns into an unknown size.\<close>

definition probe_remote_size :: "env \<Rightarrow> string \<Rightarrow> exc + int option" where
  "probe_remote_size env u =
     (case get_remote_size env u of
        Inl e \<Rightarrow> (if exc_class_of e = URLError then Inr None else Inl e)
      | Inr remote_size \<Rightarrow> Inr remote_size)"

text \<open>Source lines 145 to 150: the test that ends the task before any transfer.\<close>

definition already_complete :: "world \<Rightarrow> string \<Rightarrow> int option \<Rightarrow> bool" where
  "already_complete w out remote_size =
     (case files w out of
        None \<Rightarrow> False
      | Some data \<Rightarrow>
          (let local_size = int (length data) in
           case remote_size of
             None \<Rightarrow> local_size > 0
           | Some r \<Rightarrow> local_size = r))"

text \<open>\<open>if os.path.exists(temp_path): os.remove(temp_path)\<close>, before the transfer and in the handler.\<close>

definition remove_if_exists :: "env \<Rightarrow> fs_op \<Rightarrow> string \<Rightarrow> world \<Rightarrow> exc + world" where
  "remove_if_exists env call tmp w =
     (case files w tmp of
        None \<Rightarrow> Inr w
      | Some data \<Rightarrow>
          (case fault env call of
             Some e \<Rightarrow> Inl e
           | None \<Rightarrow> Inr (w\<lparr>files := (files w)(tmp := None)\<rparr>)))"

text \<open>Source lines 159 to 163: the chunks read and written until an empty one.\<close>

fun copy_chunks :: "env \<Rightarrow> string \<Rightarrow> read_result list \<Rightarrow> string \<Rightarrow> exc option \<times> string" where
  "copy_chunks env tmp [] written = (None, written)"
| "copy_chunks env tmp (ReadRaises e # rs) written = (Some e, written)"
| "copy_chunks env tmp (Chunk c # rs) written =
     (if c = [] then (None, written)
      else case fault env (Write tmp (length written)) of
             Some e \<Rightarrow> (Some e, written)
           | None \<Rightarrow> copy_chunks env tmp rs (written @ c))"

text \<open>Source lines 164 to 169.\<close>

definition check_size :: "env \<Rightarrow> string \<Rightarrow> int option \<Rightarrow> world \<Rightarrow> exc option" where
  "check_size env tmp remote_size w =
     (case remote_size of
        None \<Rightarrow> None
      | Some r \<Rightarrow>
          (case fault env (Getsize tmp) of
             Some e \<Rightarrow> Some e
           | None \<Rightarrow>
               (case files w tmp of
                  None \<Rightarrow> Some (Exc IOError ''[Errno 2] No such file or directory'')
                | Some data \<Rightarrow>
                    (let downloaded_size = int (length data) in
                     if downloaded_size \<noteq> r
                     then Some (Exc IOError (''size mismatch: expected '' @ str_int r
                                              @ '' got '' @ str_int downloaded_size))
                     else None))))"

text \<open>\<open>os.replace(temp_path, output_path)\<close>.\<close>

definition os_replace :: "env \<Rightarrow> string \<Rightarrow> string \<Rightarrow> world \<Rightarrow> exc + world" where
  "os_replace env tmp out w =
     (case fault env (Replace tmp out) of
        Some e \<Rightarrow> Inl e
      | None \<Rightarrow>
          (case files w tmp of
             None \<Rightarrow> Inl (Exc IOError ''[Errno 2] No such file or directory'')
           | Some data \<Rightarrow> Inr (w\<lparr>files := ((files w)(tmp := None))(out \<mapsto> data)\<rparr>)))"

text \<open>The body of the \<open>try\<close> (source lines 157 to 170): the exception it raises, if any.\<close>

definition attempt :: "env \<Rightarrow> task \<Rightarrow> int option \<Rightarrow> world \<Rightarrow> exc option \<times> world" where
  "attempt env t remote_size w0 =
     (let u = url t; out = output_path t; tmp = out @ ''.part'';
          w = w0\<lparr>requests := requests w0 @ [(GET, u)]\<rparr>
      in case get_response env u of
           Inl e \<Rightarrow> (Some e, w)
         | Inr body \<Rightarrow>
             (case fault env (OpenWrite tmp) of
                Some e \<Rightarrow> (Some e, w)
              | None \<Rightarrow>
                  (let res = copy_chunks env tmp body [];
                       w1 = w\<lparr>files := (files w)(tmp \<mapsto> snd res)\<rparr>
                   in case fst res of
                        Some e \<Rightarrow> (Some e, w1)
                      | None \<Rightarrow>
                          (case check_size env tmp remote_size w1 of
                             Some e \<Rightarrow> (Some e, w1)
                           | None \<Rightarrow>
                               (case os_replace env tmp out w1 of
                                  Inl e \<Rightarrow> (Some e, w1)
                                | Inr w2 \<Rightarrow> (None, w2))))))"

text \<open>\<open>except (urllib.error.URLError, IOError, TimeoutError)\<close>.\<close>

definition handled :: "exc \<Rightarrow> bool" where
  "handled e = (exc_class_of e = URLError \<or> exc_class_of e = IOError \<or> exc_class_of e = TimeoutError)"

definition download_task :: "env \<Rightarrow> task \<Rightarrow> world \<Rightarrow> outcome \<times> world" where
  "download_task env t w0 =
     (let u = url t; out = output_path t; reg = region t;
          output_dir = os_path_dirname out
      in case fault env (Makedirs output_dir) of
           Some e \<Rightarrow> (Raised e, w0)
         | None \<Rightarrow>
             (let w1 = w0\<lparr>dirs := insert output_dir (dirs w0),
                          requests := requests w0 @ [(HEAD, u)]\<rparr>
              in case probe_remote_size env u of
                   Inl e \<Rightarrow> (Raised e, w1)
                 | Inr remote_size \<Rightarrow>
                     if already_complete w1 out remote_size then (Returned, w1)
                     else
                       (let tmp = out @ ''.part'' in
                        case remove_if_exists env (RemoveStale tmp) tmp w1 of
                          Inl e \<Rightarrow> (Raised e, w1)
                        | Inr w2 \<Rightarrow>
                            (case attempt env t remote_size w2 of
                               (None, w3) \<Rightarrow> (Returned, w3)
                             | (Some e, w3) \<Rightarrow>
                                 if handled e then
                                   (case remove_if_exists env (RemoveCleanup tmp) tmp w3 of
                                      Inl e' \<Rightarrow> (Raised e', w3)
                                    | Inr w4 \<Rightarrow>
                                        (Returned,
                                         w4\<lparr>failures := failures w4 @ [(reg, u, str_exc e)]\<rparr>))
                                 else (Raised e, w3)))))"

section \<open>The orchestrator\<close>

text \<open>
  The pool is modelled with one worker thread (\<open>--threads 1\<close>): the tasks run one after
  the other in submission order, and complete in that order. Every task runs, also after
  one has raised; \<open>future.result()\<close> then raises the first exception again. Runs with
  several worker threads, whose tasks interleave, are not modelled.
\<close>

fun run_tasks :: "env \<Rightarrow> task list \<Rightarrow> world \<Rightarrow> exc option \<times> world" where
  "run_tasks env [] w = (None, w)"
| "run_tasks env (t # ts) w =
     (case download_task env t w of
        (Returned, w') \<Rightarrow> run_tasks env ts w'
      | (Raised e, w') \<Rightarrow> (Some e, snd (run_tasks env ts w')))"

definition log_line :: "string \<times> string \<times> string \<Rightarrow> string" where
  "log_line f = (case f of (reg, u, reason) \<Rightarrow>
     reg @ [CHR 0x09] @ u @ [CHR 0x09] @ reason @ [CHR 0x0A])"

definition missing_failure :: "string \<times> string \<Rightarrow> string \<times> string \<times> string" where
  "missing_failure m = (case m of (reg, tile_name) \<Rightarrow>
     (reg, ''MISSING_URL:'' @ tile_name, ''not found''))"

text \<open>Source lines 189 to 200: what \<open>main\<close> does once every task is done.\<close>

definition report :: "env \<Rightarrow> string \<Rightarrow> (string \<times> string) list \<Rightarrow> world \<Rightarrow> outcome \<times> world" where
  "report env log_file missing_urls w0 =
     (let w = (if missing_urls \<noteq> []
               then w0\<lparr>failures := failures w0 @ map missing_failure missing_urls\<rparr>
               else w0)
      in if failures w \<noteq> [] then
           (case fault env (OpenLog log_file) of
              Some e \<Rightarrow> (Raised e, w)
            | None \<Rightarrow>
                (Returned,
                 w\<lparr>files := (files w)(log_file \<mapsto> concat (map log_line (failures w))),
                   printed := printed w @
                     [''Finished with '' @ str_nat (length (failures w)) @ '' failures. See ''
                        @ log_file @ ''.'']\<rparr>))
         else (Returned, w\<lparr>printed := printed w @ [''Download completed without failures.'']\<rparr>))"


section \<open>Example scenarios\<close>

text \<open>
  The task that the tile \<open>tile_001.tif\<close> of region \<open>Alpha.1\<close> resolves to under the output
  root \<open>out\<close>, a world with nothing in it, and environments that answer every URL alike.
\<close>

definition ex_task :: task where
  "ex_task = \<lparr>region = ''Alpha.1'', url = ''http://host/tile_001.tif'',
              output_path = ''out/train/dsm/Alpha1_tile_001.tif''\<rparr>"

definition empty_world :: world where
  "empty_world = \<lparr>files = Map.empty, dirs = {}, failures = [], requests = [], printed = []\<rparr>"

definition ex_env ::
  "exc + content_length \<Rightarrow> exc + read_result list \<Rightarrow> (fs_op \<Rightarrow> exc option) \<Rightarrow> env" where
  "ex_env h g f = \<lparr>head_response = (\<lambda>u. h), get_response = (\<lambda>u. g), fault = f\<rparr>"

definition ex_source :: "(string \<times> node) list" where
  "ex_source =
     [(''DSMs'', Directory
        [(''Alpha.1'', Directory
           [(''urls.csv'', TextFile [''http://host/tile_001.tif\<newline>'']),
            (''train.txt'', TextFile [''tile_001.tif,extra\<newline>''])])])]"

section \<open>Resolution as the spec describes it\<close>












section \<open>Reading the log, and finished tasks\<close>

text \<open>\<open>s.split(sep)\<close> for a separator of one character: how a reader takes the log apart.\<close>

fun str_split :: "char \<Rightarrow> string \<Rightarrow> string list" where
  "str_split sep [] = [[]]"
| "str_split sep (c # cs) =
     (if c = sep then [] # str_split sep cs
      else case str_split sep cs of [] \<Rightarrow> [[c]] | x # xs \<Rightarrow> (c # x) # xs)"

text \<open>
  A task is finished in a world when its parent directory is there and a file is at its
  destination whose size is the probed remote size, if that is known.
\<close>

definition completed_at :: "env \<Rightarrow> world \<Rightarrow> task \<Rightarrow> bool" where
  "completed_at env w t \<longleftrightarrow>
     fault env (Makedirs (os_path_dirname (output_path t))) = None \<and>
     os_path_dirname (output_path t) \<in> dirs w \<and>
     (\<exists>rs data. probe_remote_size env (url t) = Inr rs \<and>
        files w (output_path t) = Some data \<and>
        (case rs of None \<Rightarrow> True | Some r \<Rightarrow> int (length data) = r))"






section \<open>Strings: facts\<close>

lemma str_contains_iff: "str_contains sub s \<longleftrightarrow> (\<exists>ps ss. s = ps @ sub @ ss)"
proof (induction s)
  case Nil
  then show ?case by auto
next
  case (Cons c cs)
  show ?case
  proof
    assume "str_contains sub (c # cs)"
    then consider "take (length sub) (c # cs) = sub" | "str_contains sub cs" by auto
    then show "\<exists>ps ss. c # cs = ps @ sub @ ss"
    proof cases
      case 1
      then have "c # cs = [] @ sub @ drop (length sub) (c # cs)"
        by (metis append_Nil append_take_drop_id)
      then show ?thesis by blast
    next
      case 2
      then obtain ps ss where "cs = ps @ sub @ ss" using Cons.IH by blast
      then have "c # cs = (c # ps) @ sub @ ss" by simp
      then show ?thesis by blast
    qed
  next
    assume "\<exists>ps ss. c # cs = ps @ sub @ ss"
    then obtain ps ss where eq: "c # cs = ps @ sub @ ss" by blast
    show "str_contains sub (c # cs)"
    proof (cases ps)
      case Nil
      then have "take (length sub) (c # cs) = sub" using eq by simp
      then show ?thesis by simp
    next
      case (Cons p ps')
      then have "cs = ps' @ sub @ ss" using eq by simp
      then show ?thesis using Cons.IH by auto
    qed
  qed
qed

lemma str_lower_contains:
  assumes "str_contains sub s"
  shows "str_contains (str_lower sub) (str_lower s)"
proof -
  obtain ps ss where "s = ps @ sub @ ss" using assms str_contains_iff by blast
  then have "str_lower s = str_lower ps @ str_lower sub @ str_lower ss"
    by (simp add: str_lower_def)
  then show ?thesis using str_contains_iff by blast
qed

lemma str_lower_markers:
  "str_lower ''train'' = ''train''" "str_lower ''val'' = ''val''" "str_lower ''test'' = ''test''"
  by code_simp+

section \<open>Split classification\<close>

text \<open>
  Claim C8. The split of a list file is decided on its lowercased name, in the order
  train, val, test: the first marker that occurs in it wins, and a name with none of the
  three has no split. In particular a name that contains both \<open>train\<close> and \<open>val\<close> is
  classified as train.
\<close>

theorem split_from_manifest_priority:
  "(str_contains ''train'' (str_lower f) \<longrightarrow> split_from_manifest f = Some ''train'') \<and>
   (\<not> str_contains ''train'' (str_lower f) \<and> str_contains ''val'' (str_lower f)
      \<longrightarrow> split_from_manifest f = Some ''val'') \<and>
   (\<not> str_contains ''train'' (str_lower f) \<and> \<not> str_contains ''val'' (str_lower f)
      \<and> str_contains ''test'' (str_lower f) \<longrightarrow> split_from_manifest f = Some ''test'') \<and>
   (\<not> str_contains ''train'' (str_lower f) \<and> \<not> str_contains ''val'' (str_lower f)
      \<and> \<not> str_contains ''test'' (str_lower f) \<longrightarrow> split_from_manifest f = None) \<and>
   ((\<exists>ps ss. f = ps @ ''train'' @ ss) \<and> (\<exists>ps ss. f = ps @ ''val'' @ ss)
      \<longrightarrow> split_from_manifest f = Some ''train'')"
proof -
  have "split_from_manifest f = Some ''train''" if "\<exists>ps ss. f = ps @ ''train'' @ ss"
  proof -
    have "str_contains ''train'' f" using that str_contains_iff by blast
    then have "str_contains ''train'' (str_lower f)"
      using str_lower_contains[of "''train''" f] str_lower_markers(1) by simp
    then show ?thesis by (simp add: split_from_manifest_def)
  qed
  then show ?thesis by (auto simp: split_from_manifest_def Let_def)
qed

theorem split_from_manifest_priority_witness:
  "split_from_manifest ''Train_val.TXT'' = Some ''train'' \<and>
   split_from_manifest ''VAL_test.txt'' = Some ''val'' \<and>
   split_from_manifest ''Test.txt'' = Some ''test'' \<and>
   split_from_manifest ''readme.txt'' = None \<and>
   split_from_manifest ''val_of_train.txt'' = Some ''train''"
proof -
  have a: "str_contains ''train'' (str_lower ''Train_val.TXT'')" by code_simp
  have b: "\<not> str_contains ''train'' (str_lower ''VAL_test.txt'') \<and>
           str_contains ''val'' (str_lower ''VAL_test.txt'')" by code_simp
  have c: "\<not> str_contains ''train'' (str_lower ''Test.txt'') \<and>
           \<not> str_contains ''val'' (str_lower ''Test.txt'') \<and>
           str_contains ''test'' (str_lower ''Test.txt'')" by code_simp
  have d: "\<not> str_contains ''train'' (str_lower ''readme.txt'') \<and>
           \<not> str_contains ''val'' (str_lower ''readme.txt'') \<and>
           \<not> str_contains ''test'' (str_lower ''readme.txt'')" by code_simp
  have e: "(\<exists>ps ss. ''val_of_train.txt'' = ps @ ''train'' @ ss) \<and>
           (\<exists>ps ss. ''val_of_train.txt'' = ps @ ''val'' @ ss)"
  proof
    have "''val_of_train.txt'' = ''val_of_'' @ ''train'' @ ''.txt''" by simp
    then show "\<exists>ps ss. ''val_of_train.txt'' = ps @ ''train'' @ ss" by blast
    have "''val_of_train.txt'' = [] @ ''val'' @ ''_of_train.txt''" by simp
    then show "\<exists>ps ss. ''val_of_train.txt'' = ps @ ''val'' @ ss" by blast
  qed
  have 1: "split_from_manifest ''Train_val.TXT'' = Some ''train''"
    using split_from_manifest_priority[of "''Train_val.TXT''", THEN conjunct1] a by (rule mp)
  have 2: "split_from_manifest ''VAL_test.txt'' = Some ''val''"
    using split_from_manifest_priority[of "''VAL_test.txt''", THEN conjunct2, THEN conjunct1] b
    by (rule mp)
  have 3: "split_from_manifest ''Test.txt'' = Some ''test''"
    using split_from_manifest_priority[of "''Test.txt''", THEN conjunct2, THEN conjunct2,
        THEN conjunct1] c
    by (rule mp)
  have 4: "split_from_manifest ''readme.txt'' = None"
    using split_from_manifest_priority[of "''readme.txt''", THEN conjunct2, THEN conjunct2,
        THEN conjunct2, THEN conjunct1] d
    by (rule mp)
  have 5: "split_from_manifest ''val_of_train.txt'' = Some ''train''"
    using split_from_manifest_priority[of "''val_of_train.txt''", THEN conjunct2, THEN conjunct2,
        THEN conjunct2, THEN conjunct2] e
    by (rule mp)
  show ?thesis
    by (intro conjI) (rule 1, rule 2, rule 3, rule 4, rule 5)
qed

section \<open>Resolution of the source tree\<close>















lemma ex_pieces:
  "split_from_manifest ''train.txt'' = Some ''train''"
  "str_endswith (str_lower ''urls.csv'') ''.csv'' = True"
  "str_endswith (str_lower ''train.txt'') ''.csv'' = False"
  "str_endswith (str_lower ''urls.csv'') ''.txt'' = False"
  "str_endswith (str_lower ''train.txt'') ''.txt'' = True"
  "str_strip (''http://host/tile_001.tif\<newline>'') = ''http://host/tile_001.tif''"
  "rsplit_last ''http://host/tile_001.tif'' = ''tile_001.tif''"
  "str_strip (''tile_001.tif,extra\<newline>'') = ''tile_001.tif,extra''"
  "split_first ''tile_001.tif,extra'' = ''tile_001.tif''"
  "str_strip (''tile_999.tif\<newline>'') = ''tile_999.tif''"
  "split_first ''tile_999.tif'' = ''tile_999.tif''"
  "str_strip '' \<newline>'' = []"
  "remove_dots ''Alpha.1'' = ''Alpha1''"
  by code_simp+



text \<open>
  Claim C9. With region \<open>Alpha.1\<close> under the surface-model root, a URL list holding
  \<open>http://host/tile_001.tif\<close> (whose URL map sends \<open>tile_001.tif\<close> to that URL) and a
  \<open>train.txt\<close> holding \<open>tile_001.tif,extra\<close>, resolution gives exactly one task and no
  missing entry: region \<open>Alpha.1\<close>, that URL, and the destination that \<open>os.path.join\<close>
  builds from the output root, \<open>train\<close>, \<open>dsm\<close> and \<open>Alpha1_tile_001.tif\<close>, which is the
  output root followed by \<open>/train/dsm/Alpha1_tile_001.tif\<close> for an output root that is
  not empty and does not end in a slash.
\<close>

theorem collect_tasks_alpha_scenario:
  "collect_tasks ex_source output_root =
     Inr ([\<lparr>region = ''Alpha.1'', url = ''http://host/tile_001.tif'',
            output_path = os_path_join output_root [''train'', ''dsm'', ''Alpha1_tile_001.tif'']\<rparr>],
          [])
   \<and> read_url_map (TextFile [''http://host/tile_001.tif\<newline>'']) =
       Inr [''tile_001.tif'' \<mapsto> ''http://host/tile_001.tif'']
   \<and> (output_root \<noteq> [] \<and> last output_root \<noteq> CHR ''/'' \<longrightarrow>
        os_path_join output_root [''train'', ''dsm'', ''Alpha1_tile_001.tif'']
          = output_root @ ''/train/dsm/Alpha1_tile_001.tif'')"
proof (intro conjI impI)
  show "collect_tasks ex_source output_root =
     Inr ([\<lparr>region = ''Alpha.1'', url = ''http://host/tile_001.tif'',
            output_path = os_path_join output_root [''train'', ''dsm'', ''Alpha1_tile_001.tif'']\<rparr>],
          [])"
    by (simp add: collect_tasks_def collect_folder_def collect_region_def collect_manifest_def
        read_url_map_def url_map_line_def collect_line_def ex_pieces os_path_join_def
        ex_source_def Let_def)
next
  show "read_url_map (TextFile [''http://host/tile_001.tif\<newline>'']) =
       Inr [''tile_001.tif'' \<mapsto> ''http://host/tile_001.tif'']"
    by (simp add: read_url_map_def url_map_line_def ex_pieces Let_def)
next
  assume "output_root \<noteq> [] \<and> last output_root \<noteq> CHR ''/''"
  then show "os_path_join output_root [''train'', ''dsm'', ''Alpha1_tile_001.tif'']
          = output_root @ ''/train/dsm/Alpha1_tile_001.tif''"
    by (simp add: os_path_join_def join2_def)
qed

theorem collect_tasks_alpha_scenario_witness:
  "collect_tasks ex_source ''out'' = Inr ([ex_task], [])"
proof -
  have h: "''out'' \<noteq> [] \<and> last ''out'' \<noteq> CHR ''/''" by simp
  show ?thesis
    using h collect_tasks_alpha_scenario[of "''out''"] by (simp add: ex_task_def)
qed

section \<open>The worker: how a task proceeds\<close>


lemma attempt_requests:
  "requests (snd (attempt env t rs w)) = requests w @ [(GET, url t)]"
  by (auto simp: attempt_def Let_def os_replace_def split: sum.splits option.splits prod.splits)

lemma attempt_frame:
  "dirs (snd (attempt env t rs w)) = dirs w"
  "failures (snd (attempt env t rs w)) = failures w"
  "printed (snd (attempt env t rs w)) = printed w"
  by (auto simp: attempt_def Let_def os_replace_def split: sum.splits option.splits prod.splits)

lemma attempt_raises_files:
  assumes "attempt env t rs w = (Some e, w')"
  shows "files w' = files w \<or> (\<exists>data. files w' = (files w)(output_path t @ ''.part'' \<mapsto> data))"
  using assms
  by (auto simp: attempt_def Let_def os_replace_def split: sum.splits option.splits prod.splits)

lemma attempt_done_files:
  assumes "attempt env t rs w = (None, w')"
  shows "\<exists>data. files w' = ((files w)(output_path t @ ''.part'' := None))(output_path t \<mapsto> data)
     \<and> (case rs of None \<Rightarrow> True | Some r \<Rightarrow> int (length data) = r)"
  using assms
  by (auto simp: attempt_def Let_def os_replace_def check_size_def split: sum.splits option.splits prod.splits if_splits)

lemma remove_if_exists_frame:
  assumes "remove_if_exists env call p w = Inr w'"
  shows "files w' = (files w)(p := None)" "dirs w' = dirs w" "failures w' = failures w"
    "requests w' = requests w" "printed w' = printed w"
  using assms by (auto simp: remove_if_exists_def split: option.splits)

lemma remove_if_exists_ok:
  "fault env call = None \<Longrightarrow> remove_if_exists env call p w = Inr (w\<lparr>files := (files w)(p := None)\<rparr>)"
  by (cases "files w p") (simp_all add: remove_if_exists_def fun_upd_idem)

lemma already_complete_iff:
  "already_complete w out remote_size \<longleftrightarrow>
     (\<exists>data. files w out = Some data \<and>
        (remote_size = None \<and> length data > 0 \<or> remote_size = Some (int (length data))))"
  by (auto simp: already_complete_def Let_def split: option.splits)

lemma already_complete_cong:
  "files w' out = files w out \<Longrightarrow> already_complete w' out rs = already_complete w out rs"
  by (simp add: already_complete_def)

lemma download_task_makedirs_raises:
  "fault env (Makedirs (os_path_dirname (output_path t))) = Some e \<Longrightarrow>
   download_task env t w = (Raised e, w)"
  by (simp add: download_task_def Let_def)

lemma download_task_probe_raises:
  assumes "fault env (Makedirs (os_path_dirname (output_path t))) = None"
      and "probe_remote_size env (url t) = Inl e"
  shows "download_task env t w =
     (Raised e, w\<lparr>dirs := insert (os_path_dirname (output_path t)) (dirs w),
                  requests := requests w @ [(HEAD, url t)]\<rparr>)"
  using assms by (simp add: download_task_def Let_def)

lemma download_task_skip:
  assumes "fault env (Makedirs (os_path_dirname (output_path t))) = None"
      and "probe_remote_size env (url t) = Inr rs"
      and "already_complete w (output_path t) rs"
  shows "download_task env t w =
     (Returned, w\<lparr>dirs := insert (os_path_dirname (output_path t)) (dirs w),
                  requests := requests w @ [(HEAD, url t)]\<rparr>)"
proof -
  have "already_complete (w\<lparr>dirs := insert (os_path_dirname (output_path t)) (dirs w),
                  requests := requests w @ [(HEAD, url t)]\<rparr>) (output_path t) rs"
    using assms(3) by (simp add: already_complete_def)
  then show ?thesis using assms(1,2) by (simp add: download_task_def Let_def)
qed

lemma download_task_stale_raises:
  assumes "fault env (Makedirs (os_path_dirname (output_path t))) = None"
      and "probe_remote_size env (url t) = Inr rs"
      and "\<not> already_complete w (output_path t) rs"
      and "remove_if_exists env (RemoveStale (output_path t @ ''.part'')) (output_path t @ ''.part'')
             (w\<lparr>dirs := insert (os_path_dirname (output_path t)) (dirs w),
                requests := requests w @ [(HEAD, url t)]\<rparr>) = Inl e"
  shows "download_task env t w =
     (Raised e, w\<lparr>dirs := insert (os_path_dirname (output_path t)) (dirs w),
                  requests := requests w @ [(HEAD, url t)]\<rparr>)"
proof -
  have "\<not> already_complete (w\<lparr>dirs := insert (os_path_dirname (output_path t)) (dirs w),
                  requests := requests w @ [(HEAD, url t)]\<rparr>) (output_path t) rs"
    using assms(3) by (simp add: already_complete_def)
  then show ?thesis using assms(1,2,4) by (simp add: download_task_def Let_def)
qed

lemma download_task_fetch:
  assumes "fault env (Makedirs (os_path_dirname (output_path t))) = None"
      and "probe_remote_size env (url t) = Inr rs"
      and "\<not> already_complete w (output_path t) rs"
      and "remove_if_exists env (RemoveStale (output_path t @ ''.part'')) (output_path t @ ''.part'')
             (w\<lparr>dirs := insert (os_path_dirname (output_path t)) (dirs w),
                requests := requests w @ [(HEAD, url t)]\<rparr>) = Inr w2"
  shows "download_task env t w =
     (case attempt env t rs w2 of
        (None, w3) \<Rightarrow> (Returned, w3)
      | (Some e, w3) \<Rightarrow>
          if handled e then
            (case remove_if_exists env (RemoveCleanup (output_path t @ ''.part''))
                    (output_path t @ ''.part'') w3 of
               Inl e' \<Rightarrow> (Raised e', w3)
             | Inr w4 \<Rightarrow>
                 (Returned, w4\<lparr>failures := failures w4 @ [(region t, url t, str_exc e)]\<rparr>))
          else (Raised e, w3))"
proof -
  have "\<not> already_complete (w\<lparr>dirs := insert (os_path_dirname (output_path t)) (dirs w),
                  requests := requests w @ [(HEAD, url t)]\<rparr>) (output_path t) rs"
    using assms(3) by (simp add: already_complete_def)
  then show ?thesis using assms(1,2,4) by (simp add: download_task_def Let_def)
qed

lemma download_task_fetch_requests:
  assumes "fault env (Makedirs (os_path_dirname (output_path t))) = None"
      and "probe_remote_size env (url t) = Inr rs"
      and "\<not> already_complete w (output_path t) rs"
      and "remove_if_exists env (RemoveStale (output_path t @ ''.part'')) (output_path t @ ''.part'')
             (w\<lparr>dirs := insert (os_path_dirname (output_path t)) (dirs w),
                requests := requests w @ [(HEAD, url t)]\<rparr>) = Inr w2"
  shows "requests (snd (download_task env t w)) = requests w @ [(HEAD, url t), (GET, url t)]"
proof -
  have r2: "requests w2 = requests w @ [(HEAD, url t)]"
    using remove_if_exists_frame(4)[OF assms(4)] by simp
  obtain x w3 where a: "attempt env t rs w2 = (x, w3)" by (cases "attempt env t rs w2")
  have r3: "requests w3 = requests w @ [(HEAD, url t), (GET, url t)]"
    using attempt_requests[of env t rs w2] a r2 by simp
  show ?thesis
    unfolding download_task_fetch[OF assms] a
    using r3 by (auto split: option.splits sum.splits dest: remove_if_exists_frame(4))
qed

lemma attempt_raises_world:
  assumes "attempt env t rs w = (Some e, w')"
  shows "w'\<lparr>files := (files w')(output_path t @ ''.part'' := None)\<rparr> =
         w\<lparr>requests := requests w @ [(GET, url t)],
           files := (files w)(output_path t @ ''.part'' := None)\<rparr>"
  using assms
  by (auto simp: attempt_def Let_def os_replace_def split: sum.splits option.splits prod.splits)

lemma download_task_handled:
  assumes mk: "fault env (Makedirs (os_path_dirname (output_path t))) = None"
      and pr: "probe_remote_size env (url t) = Inr rs"
      and nc: "\<not> already_complete w (output_path t) rs"
      and st: "fault env (RemoveStale (output_path t @ ''.part'')) = None"
      and at: "attempt env t rs
                 (w\<lparr>dirs := insert (os_path_dirname (output_path t)) (dirs w),
                    requests := requests w @ [(HEAD, url t)],
                    files := (files w)(output_path t @ ''.part'' := None)\<rparr>) = (Some e, w3)"
      and h: "handled e"
      and cl: "fault env (RemoveCleanup (output_path t @ ''.part'')) = None"
  shows "download_task env t w =
           (Returned,
            w\<lparr>dirs := insert (os_path_dirname (output_path t)) (dirs w),
              requests := requests w @ [(HEAD, url t), (GET, url t)],
              files := (files w)(output_path t @ ''.part'' := None),
              failures := failures w @ [(region t, url t, str_exc e)]\<rparr>)"
proof -
  let ?tmp = "output_path t @ ''.part''"
  let ?w1 = "w\<lparr>dirs := insert (os_path_dirname (output_path t)) (dirs w),
                requests := requests w @ [(HEAD, url t)]\<rparr>"
  let ?w2 = "w\<lparr>dirs := insert (os_path_dirname (output_path t)) (dirs w),
                    requests := requests w @ [(HEAD, url t)],
                    files := (files w)(?tmp := None)\<rparr>"
  have rs: "remove_if_exists env (RemoveStale ?tmp) ?tmp ?w1 = Inr ?w2"
    using remove_if_exists_ok[OF st, of ?tmp ?w1] by simp
  have rc: "remove_if_exists env (RemoveCleanup ?tmp) ?tmp w3 = Inr (w3\<lparr>files := (files w3)(?tmp := None)\<rparr>)"
    using remove_if_exists_ok[OF cl] by simp
  have w3: "w3\<lparr>files := (files w3)(?tmp := None)\<rparr> =
         ?w2\<lparr>requests := requests ?w2 @ [(GET, url t)], files := (files ?w2)(?tmp := None)\<rparr>"
    using attempt_raises_world[OF at] .
  show ?thesis
    unfolding download_task_fetch[OF mk pr nc rs] at
    using h rc w3 by simp
qed



lemma attempt_size_mismatch:
  assumes gr: "get_response env (url t) = Inr body"
      and ow: "fault env (OpenWrite (output_path t @ ''.part'')) = None"
      and cp: "copy_chunks env (output_path t @ ''.part'') body [] = (None, data)"
      and gs: "fault env (Getsize (output_path t @ ''.part'')) = None"
      and ne: "int (length data) \<noteq> r"
  shows "attempt env t (Some r) w =
     (Some (Exc IOError (''size mismatch: expected '' @ str_int r @ '' got ''
                          @ str_int (int (length data)))),
      w\<lparr>requests := requests w @ [(GET, url t)],
        files := (files w)(output_path t @ ''.part'' \<mapsto> data)\<rparr>)"
  using assms by (simp add: attempt_def Let_def check_size_def)

lemma download_task_size_mismatch:
  assumes mk: "fault env (Makedirs (os_path_dirname (output_path t))) = None"
      and pr: "probe_remote_size env (url t) = Inr (Some r)"
      and nc: "\<not> already_complete w (output_path t) (Some r)"
      and st: "fault env (RemoveStale (output_path t @ ''.part'')) = None"
      and gr: "get_response env (url t) = Inr body"
      and ow: "fault env (OpenWrite (output_path t @ ''.part'')) = None"
      and cp: "copy_chunks env (output_path t @ ''.part'') body [] = (None, data)"
      and gs: "fault env (Getsize (output_path t @ ''.part'')) = None"
      and ne: "int (length data) \<noteq> r"
      and cl: "fault env (RemoveCleanup (output_path t @ ''.part'')) = None"
  shows "download_task env t w =
           (Returned,
            w\<lparr>dirs := insert (os_path_dirname (output_path t)) (dirs w),
              requests := requests w @ [(HEAD, url t), (GET, url t)],
              files := (files w)(output_path t @ ''.part'' := None),
              failures := failures w @
                [(region t, url t,
                  ''size mismatch: expected '' @ str_int r @ '' got ''
                    @ str_int (int (length data)))]\<rparr>)"
proof -
  have h: "handled (Exc IOError (''size mismatch: expected '' @ str_int r @ '' got ''
                          @ str_int (int (length data))))"
    by (simp add: handled_def)
  show ?thesis
    using download_task_handled[OF mk pr nc st attempt_size_mismatch[OF gr ow cp gs ne] h cl]
    by simp
qed

lemma download_task_dirs:
  assumes mk: "fault env (Makedirs (os_path_dirname (output_path t))) = None"
  shows "dirs (snd (download_task env t w)) = insert (os_path_dirname (output_path t)) (dirs w)"
proof -
  let ?d = "os_path_dirname (output_path t)"
  let ?tmp = "output_path t @ ''.part''"
  let ?w1 = "w\<lparr>dirs := insert ?d (dirs w), requests := requests w @ [(HEAD, url t)]\<rparr>"
  show ?thesis
  proof (cases "probe_remote_size env (url t)")
    case (Inl e)
    then show ?thesis using download_task_probe_raises[OF mk Inl] by simp
  next
    case (Inr rs)
    show ?thesis
    proof (cases "already_complete w (output_path t) rs")
      case True
      then show ?thesis using download_task_skip[OF mk Inr True] by simp
    next
      case False
      show ?thesis
      proof (cases "remove_if_exists env (RemoveStale ?tmp) ?tmp ?w1")
        case (Inl e)
        then show ?thesis using download_task_stale_raises[OF mk Inr False Inl] by simp
      next
        case w2: (Inr w2)
        have d2: "dirs w2 = insert ?d (dirs w)"
          using remove_if_exists_frame(2)[OF w2] by simp
        obtain x w3 where a: "attempt env t rs w2 = (x, w3)" by (cases "attempt env t rs w2")
        have d3: "dirs w3 = insert ?d (dirs w)"
          using attempt_frame(1)[of env t rs w2] a d2 by simp
        show ?thesis
          unfolding download_task_fetch[OF mk Inr False w2] a
          using d3 by (auto split: option.splits sum.splits dest: remove_if_exists_frame(2))
      qed
    qed
  qed
qed

lemma download_task_failure_files:
  assumes ret: "download_task env t w = (Returned, w')"
      and fl: "failures w' \<noteq> failures w"
  shows "files w' = (files w)(output_path t @ ''.part'' := None)"
proof -
  let ?d = "os_path_dirname (output_path t)"
  let ?tmp = "output_path t @ ''.part''"
  let ?w1 = "w\<lparr>dirs := insert ?d (dirs w), requests := requests w @ [(HEAD, url t)]\<rparr>"
  have mk: "fault env (Makedirs ?d) = None"
    using ret download_task_makedirs_raises[of env t _ w] by (cases "fault env (Makedirs ?d)") auto
  obtain rs where pr: "probe_remote_size env (url t) = Inr rs"
    using ret download_task_probe_raises[OF mk, of _ w] by (cases "probe_remote_size env (url t)") auto
  have nc: "\<not> already_complete w (output_path t) rs"
    using ret fl download_task_skip[OF mk pr, of w] by auto
  obtain w2 where w2: "remove_if_exists env (RemoveStale ?tmp) ?tmp ?w1 = Inr w2"
    using ret download_task_stale_raises[OF mk pr nc, of _]
    by (cases "remove_if_exists env (RemoveStale ?tmp) ?tmp ?w1") auto
  have f2: "files w2 = (files w)(?tmp := None)" "failures w2 = failures w"
    using remove_if_exists_frame(1,3)[OF w2] by simp_all
  obtain x w3 where a: "attempt env t rs w2 = (x, w3)" by (cases "attempt env t rs w2")
  have fw3: "failures w3 = failures w" using attempt_frame(2)[of env t rs w2] a f2 by simp
  from ret[unfolded download_task_fetch[OF mk pr nc w2] a] fl fw3
  obtain e w4 where x: "x = Some e" and "handled e"
    and w4: "remove_if_exists env (RemoveCleanup ?tmp) ?tmp w3 = Inr w4"
    and w': "w' = w4\<lparr>failures := failures w4 @ [(region t, url t, str_exc e)]\<rparr>"
    by (auto split: option.splits sum.splits if_splits)
  have "files w3 = files w2 \<or> (\<exists>data. files w3 = (files w2)(?tmp \<mapsto> data))"
    using attempt_raises_files a x by blast
  then have "(files w3)(?tmp := None) = (files w)(?tmp := None)"
    using f2 by auto
  then show ?thesis using w' remove_if_exists_frame(1)[OF w4] by simp
qed

lemma probe_URLError_unknown:
  "head_response env u = Inl e \<Longrightarrow> exc_class_of e = URLError \<Longrightarrow> probe_remote_size env u = Inr None"
  by (simp add: probe_remote_size_def get_remote_size_def)

lemma probe_other_raises:
  "head_response env u = Inl e \<Longrightarrow> exc_class_of e \<noteq> URLError \<Longrightarrow> probe_remote_size env u = Inl e"
  by (simp add: probe_remote_size_def get_remote_size_def)

lemma ex_dirname: "os_path_dirname ''out/train/dsm/Alpha1_tile_001.tif'' = ''out/train/dsm''"
  by code_simp

lemma ex_str_int: "str_int 3 = ''3''" "str_int 4 = ''4''"
  by code_simp+

section \<open>The resumability rule\<close>

lemma copy_chunks_all:
  assumes "\<forall>c\<in>set cs. c \<noteq> []" and "\<forall>n. fault env (Write tmp n) = None"
  shows "copy_chunks env tmp (map Chunk cs) written = (None, written @ concat cs)"
  using assms by (induction cs arbitrary: written) simp_all

lemma attempt_success:
  assumes gr: "get_response env (url t) = Inr (map Chunk cs)"
      and ne: "\<forall>c\<in>set cs. c \<noteq> []"
      and ow: "fault env (OpenWrite (output_path t @ ''.part'')) = None"
      and wr: "\<forall>n. fault env (Write (output_path t @ ''.part'') n) = None"
      and gs: "fault env (Getsize (output_path t @ ''.part'')) = None"
      and rp: "fault env (Replace (output_path t @ ''.part'') (output_path t)) = None"
      and sz: "rs = None \<or> rs = Some (int (length (concat cs)))"
  shows "attempt env t rs w =
     (None, w\<lparr>requests := requests w @ [(GET, url t)],
              files := ((files w)(output_path t @ ''.part'' := None))(output_path t \<mapsto> concat cs)\<rparr>)"
proof -
  have cp: "copy_chunks env (output_path t @ ''.part'') (map Chunk cs) [] = (None, concat cs)"
    using copy_chunks_all[OF ne wr, of "[]"] by simp
  have cs: "check_size env (output_path t @ ''.part'') rs
              (w\<lparr>requests := requests w @ [(GET, url t)],
                 files := (files w)(output_path t @ ''.part'' \<mapsto> concat cs)\<rparr>) = None"
    using gs sz by (auto simp: check_size_def)
  show ?thesis
    using gr ow rp cp cs by (simp add: attempt_def Let_def os_replace_def)
qed

text \<open>
  Claim C2, amended. Once \<open>os.makedirs\<close> has not raised and the probe has given a size or
  unknown, the worker returns at once, having made no transfer, changed no file and
  recorded no failure, exactly when a file exists at the destination and either the
  remote size is unknown and the file is not empty, or the remote size is known and
  equals the size of the file. Otherwise it goes on to the download: unless removing a
  stale staging file raises, the request for the body is issued, and when nothing fails
  and the size agrees with a known remote size, the destination holds the body and the
  staging file is gone.
\<close>

theorem download_task_skip_iff:
  assumes mk: "fault env (Makedirs (os_path_dirname (output_path t))) = None"
      and pr: "probe_remote_size env (url t) = Inr remote_size"
  shows "(download_task env t w =
            (Returned, w\<lparr>dirs := insert (os_path_dirname (output_path t)) (dirs w),
                         requests := requests w @ [(HEAD, url t)]\<rparr>)
          \<longleftrightarrow>
          (\<exists>data. files w (output_path t) = Some data \<and>
             (remote_size = None \<and> length data > 0 \<or> remote_size = Some (int (length data)))))
       \<and> (\<not> (\<exists>data. files w (output_path t) = Some data \<and>
             (remote_size = None \<and> length data > 0 \<or> remote_size = Some (int (length data))))
           \<and> (files w (output_path t @ ''.part'') = None
                \<or> fault env (RemoveStale (output_path t @ ''.part'')) = None)
           \<longrightarrow> requests (snd (download_task env t w))
                 = requests w @ [(HEAD, url t), (GET, url t)])
       \<and> (\<forall>cs.
            \<not> (\<exists>data. files w (output_path t) = Some data \<and>
             (remote_size = None \<and> length data > 0 \<or> remote_size = Some (int (length data))))
           \<and> (files w (output_path t @ ''.part'') = None
                \<or> fault env (RemoveStale (output_path t @ ''.part'')) = None)
           \<and> get_response env (url t) = Inr (map Chunk cs) \<and> (\<forall>c\<in>set cs. c \<noteq> [])
           \<and> fault env (OpenWrite (output_path t @ ''.part'')) = None
           \<and> (\<forall>n. fault env (Write (output_path t @ ''.part'') n) = None)
           \<and> fault env (Getsize (output_path t @ ''.part'')) = None
           \<and> fault env (Replace (output_path t @ ''.part'') (output_path t)) = None
           \<and> (remote_size = None \<or> remote_size = Some (int (length (concat cs))))
           \<longrightarrow> download_task env t w =
                 (Returned,
                  w\<lparr>dirs := insert (os_path_dirname (output_path t)) (dirs w),
                    requests := requests w @ [(HEAD, url t), (GET, url t)],
                    files := ((files w)(output_path t @ ''.part'' := None))
                               (output_path t \<mapsto> concat cs)\<rparr>))"
proof (cases "already_complete w (output_path t) remote_size")
  case True
  then show ?thesis using download_task_skip[OF mk pr True] already_complete_iff by simp
next
  case False
  let ?tmp = "output_path t @ ''.part''"
  let ?w1 = "w\<lparr>dirs := insert (os_path_dirname (output_path t)) (dirs w),
                        requests := requests w @ [(HEAD, url t)]\<rparr>"
  have neq: "download_task env t w \<noteq> (Returned, ?w1)"
  proof (cases "remove_if_exists env (RemoveStale ?tmp) ?tmp ?w1")
    case (Inl e)
    show ?thesis using download_task_stale_raises[OF mk pr False Inl] by simp
  next
    case (Inr w2)
    have "requests (snd (download_task env t w)) \<noteq> requests ?w1"
      using download_task_fetch_requests[OF mk pr False Inr] by simp
    then show ?thesis by auto
  qed
  have stale: "remove_if_exists env (RemoveStale ?tmp) ?tmp ?w1
                 = Inr (?w1\<lparr>files := (files ?w1)(?tmp := None)\<rparr>)"
    if "files w ?tmp = None \<or> fault env (RemoveStale ?tmp) = None"
    using that by (auto simp: remove_if_exists_def fun_upd_idem split: option.splits)
  have go: "requests (snd (download_task env t w)) = requests w @ [(HEAD, url t), (GET, url t)]"
    if "files w ?tmp = None \<or> fault env (RemoveStale ?tmp) = None"
    using download_task_fetch_requests[OF mk pr False stale[OF that]] .
  have finish: "download_task env t w =
                 (Returned,
                  w\<lparr>dirs := insert (os_path_dirname (output_path t)) (dirs w),
                    requests := requests w @ [(HEAD, url t), (GET, url t)],
                    files := ((files w)(?tmp := None))(output_path t \<mapsto> concat cs)\<rparr>)"
    if st: "files w ?tmp = None \<or> fault env (RemoveStale ?tmp) = None"
      and gr: "get_response env (url t) = Inr (map Chunk cs)" and ne: "\<forall>c\<in>set cs. c \<noteq> []"
      and ow: "fault env (OpenWrite ?tmp) = None"
      and wr: "\<forall>n. fault env (Write ?tmp n) = None"
      and gs: "fault env (Getsize ?tmp) = None"
      and rp: "fault env (Replace ?tmp (output_path t)) = None"
      and sz: "remote_size = None \<or> remote_size = Some (int (length (concat cs)))"
    for cs
    unfolding download_task_fetch[OF mk pr False stale[OF st]]
      attempt_success[OF gr ne ow wr gs rp sz]
    by simp
  show ?thesis
  proof (intro conjI allI impI)
    show "(download_task env t w = (Returned, ?w1)) \<longleftrightarrow>
          (\<exists>data. files w (output_path t) = Some data \<and>
             (remote_size = None \<and> length data > 0 \<or> remote_size = Some (int (length data))))"
      using False neq already_complete_iff by simp
  next
    assume "\<not> (\<exists>data. files w (output_path t) = Some data \<and>
             (remote_size = None \<and> length data > 0 \<or> remote_size = Some (int (length data))))
           \<and> (files w ?tmp = None \<or> fault env (RemoveStale ?tmp) = None)"
    then show "requests (snd (download_task env t w))
                 = requests w @ [(HEAD, url t), (GET, url t)]"
      using go by blast
  next
    fix cs
    assume a: "\<not> (\<exists>data. files w (output_path t) = Some data \<and>
             (remote_size = None \<and> length data > 0 \<or> remote_size = Some (int (length data))))
           \<and> (files w ?tmp = None \<or> fault env (RemoveStale ?tmp) = None)
           \<and> get_response env (url t) = Inr (map Chunk cs) \<and> (\<forall>c\<in>set cs. c \<noteq> [])
           \<and> fault env (OpenWrite ?tmp) = None
           \<and> (\<forall>n. fault env (Write ?tmp n) = None)
           \<and> fault env (Getsize ?tmp) = None
           \<and> fault env (Replace ?tmp (output_path t)) = None
           \<and> (remote_size = None \<or> remote_size = Some (int (length (concat cs))))"
    show "download_task env t w =
                 (Returned,
                  w\<lparr>dirs := insert (os_path_dirname (output_path t)) (dirs w),
                    requests := requests w @ [(HEAD, url t), (GET, url t)],
                    files := ((files w)(?tmp := None))(output_path t \<mapsto> concat cs)\<rparr>)"
      by (rule finish) (use a in simp_all)
  qed
qed

theorem download_task_skip_iff_witness:
  "download_task (ex_env (Inr (Length 3)) (Inr [Chunk ''abc'']) (\<lambda>c. None)) ex_task
     (empty_world\<lparr>files := [''out/train/dsm/Alpha1_tile_001.tif'' \<mapsto> ''abc'']\<rparr>)
   = (Returned,
      empty_world\<lparr>files := [''out/train/dsm/Alpha1_tile_001.tif'' \<mapsto> ''abc''],
                  dirs := {''out/train/dsm''},
                  requests := [(HEAD, ''http://host/tile_001.tif'')]\<rparr>)
   \<and> requests (snd (download_task (ex_env (Inr (Length 3)) (Inr [Chunk ''abc'']) (\<lambda>c. None))
                       ex_task empty_world))
     = [(HEAD, ''http://host/tile_001.tif''), (GET, ''http://host/tile_001.tif'')]
   \<and> download_task (ex_env (Inr (Length 3)) (Inr [Chunk ''abc'']) (\<lambda>c. None)) ex_task empty_world
     = (Returned,
        empty_world\<lparr>dirs := {''out/train/dsm''},
                    requests := [(HEAD, ''http://host/tile_001.tif''),
                                 (GET, ''http://host/tile_001.tif'')],
                    files := [''out/train/dsm/Alpha1_tile_001.tif'' \<mapsto> ''abc'']\<rparr>)"
proof -
  let ?E = "ex_env (Inr (Length 3)) (Inr [Chunk ''abc'']) (\<lambda>c. None)"
  let ?W = "empty_world\<lparr>files := [''out/train/dsm/Alpha1_tile_001.tif'' \<mapsto> ''abc'']\<rparr>"
  have mk: "fault ?E (Makedirs (os_path_dirname (output_path ex_task))) = None"
    by (simp add: ex_env_def)
  have pr: "probe_remote_size ?E (url ex_task) = Inr (Some 3)"
    by (simp add: ex_env_def probe_remote_size_def get_remote_size_def)
  have yes: "\<exists>data. files ?W (output_path ex_task) = Some data \<and>
             (Some 3 = (None :: int option) \<and> length data > 0 \<or> Some 3 = Some (int (length data)))"
    by (simp add: ex_task_def)
  have no: "\<not> (\<exists>data. files empty_world (output_path ex_task) = Some data \<and>
             (Some 3 = (None :: int option) \<and> length data > 0 \<or> Some 3 = Some (int (length data))))
           \<and> (files empty_world (output_path ex_task @ ''.part'') = None
                \<or> fault ?E (RemoveStale (output_path ex_task @ ''.part'')) = None)"
    by (simp add: empty_world_def)
  have 1: "download_task ?E ex_task ?W =
            (Returned, ?W\<lparr>dirs := insert (os_path_dirname (output_path ex_task)) (dirs ?W),
                         requests := requests ?W @ [(HEAD, url ex_task)]\<rparr>)"
    using download_task_skip_iff[OF mk pr, of ?W, THEN conjunct1] yes by (rule iffD2)
  have 2: "requests (snd (download_task ?E ex_task empty_world))
                 = requests empty_world @ [(HEAD, url ex_task), (GET, url ex_task)]"
    using download_task_skip_iff[OF mk pr, of empty_world, THEN conjunct2, THEN conjunct1] no by (rule mp)
  have dl: "\<not> (\<exists>data. files empty_world (output_path ex_task) = Some data \<and>
             (Some 3 = (None :: int option) \<and> length data > 0 \<or> Some 3 = Some (int (length data))))
           \<and> (files empty_world (output_path ex_task @ ''.part'') = None
                \<or> fault ?E (RemoveStale (output_path ex_task @ ''.part'')) = None)
           \<and> get_response ?E (url ex_task) = Inr (map Chunk [''abc'']) \<and> (\<forall>c\<in>set [''abc'']. c \<noteq> [])
           \<and> fault ?E (OpenWrite (output_path ex_task @ ''.part'')) = None
           \<and> (\<forall>n. fault ?E (Write (output_path ex_task @ ''.part'') n) = None)
           \<and> fault ?E (Getsize (output_path ex_task @ ''.part'')) = None
           \<and> fault ?E (Replace (output_path ex_task @ ''.part'') (output_path ex_task)) = None
           \<and> (Some 3 = (None :: int option) \<or> Some 3 = Some (int (length (concat [''abc'']))))"
    by (simp add: empty_world_def ex_env_def)
  have 3: "download_task ?E ex_task empty_world =
                 (Returned,
                  empty_world\<lparr>dirs := insert (os_path_dirname (output_path ex_task)) (dirs empty_world),
                    requests := requests empty_world @ [(HEAD, url ex_task), (GET, url ex_task)],
                    files := ((files empty_world)(output_path ex_task @ ''.part'' := None))
                               (output_path ex_task \<mapsto> concat [''abc''])\<rparr>)"
    using download_task_skip_iff[OF mk pr, of empty_world, THEN conjunct2, THEN conjunct2,
        THEN spec, of "[''abc'']"] dl
    by (rule mp)
  have a: "download_task ?E ex_task ?W
   = (Returned,
      empty_world\<lparr>files := [''out/train/dsm/Alpha1_tile_001.tif'' \<mapsto> ''abc''],
                  dirs := {''out/train/dsm''},
                  requests := [(HEAD, ''http://host/tile_001.tif'')]\<rparr>)"
    using 1 by (simp add: ex_task_def ex_dirname empty_world_def)
  have b: "requests (snd (download_task ?E ex_task empty_world))
     = [(HEAD, ''http://host/tile_001.tif''), (GET, ''http://host/tile_001.tif'')]"
    using 2 by (simp add: ex_task_def ex_dirname empty_world_def)
  have c: "download_task ?E ex_task empty_world
     = (Returned,
        empty_world\<lparr>dirs := {''out/train/dsm''},
                    requests := [(HEAD, ''http://host/tile_001.tif''),
                                 (GET, ''http://host/tile_001.tif'')],
                    files := [''out/train/dsm/Alpha1_tile_001.tif'' \<mapsto> ''abc'']\<rparr>)"
    using 3 by (simp add: ex_task_def ex_dirname empty_world_def)
  show ?thesis by (intro conjI) (rule a, rule b, rule c)
qed

text \<open>
  Claim C2 as stated fails: with a file of another size than the remote one at the
  destination and a stale staging file whose removal raises, the task is not skipped and
  yet no download is made; the exception leaves the worker.
\<close>

theorem stale_staging_blocks_download:
  "fst (download_task
     (ex_env (Inr (Length 3)) (Inr [Chunk ''abc''])
        (\<lambda>c. if c = RemoveStale ''out/train/dsm/Alpha1_tile_001.tif.part''
             then Some (Exc IOError ''[Errno 13] Permission denied'') else None))
     ex_task
     (empty_world\<lparr>files := [''out/train/dsm/Alpha1_tile_001.tif'' \<mapsto> ''ab'',
                            ''out/train/dsm/Alpha1_tile_001.tif.part'' \<mapsto> ''x'']\<rparr>))
   = Raised (Exc IOError ''[Errno 13] Permission denied'')
   \<and> requests (snd (download_task
     (ex_env (Inr (Length 3)) (Inr [Chunk ''abc''])
        (\<lambda>c. if c = RemoveStale ''out/train/dsm/Alpha1_tile_001.tif.part''
             then Some (Exc IOError ''[Errno 13] Permission denied'') else None))
     ex_task
     (empty_world\<lparr>files := [''out/train/dsm/Alpha1_tile_001.tif'' \<mapsto> ''ab'',
                            ''out/train/dsm/Alpha1_tile_001.tif.part'' \<mapsto> ''x'']\<rparr>)))
   = [(HEAD, ''http://host/tile_001.tif'')]
   \<and> probe_remote_size
       (ex_env (Inr (Length 3)) (Inr [Chunk ''abc''])
        (\<lambda>c. if c = RemoveStale ''out/train/dsm/Alpha1_tile_001.tif.part''
             then Some (Exc IOError ''[Errno 13] Permission denied'') else None))
       ''http://host/tile_001.tif'' = Inr (Some 3)"
  by (intro conjI; code_simp)

section \<open>Failures of a task\<close>

text \<open>
  Claim C3, amended. When the body of the \<open>try\<close> (the request for the body, opening and
  writing the staging file, the size check, the rename) raises a \<open>URLError\<close>, an
  \<open>IOError\<close> or a \<open>TimeoutError\<close>, and removing the staging file in the handler does not
  raise, the worker returns normally: the staging file is gone, the destination is as it
  was, and exactly one failure, with the text of the exception, is appended.
\<close>

theorem download_task_records_handled_failure:
  assumes mk: "fault env (Makedirs (os_path_dirname (output_path t))) = None"
      and pr: "probe_remote_size env (url t) = Inr rs"
      and nc: "\<not> already_complete w (output_path t) rs"
      and st: "fault env (RemoveStale (output_path t @ ''.part'')) = None"
      and at: "attempt env t rs
                 (w\<lparr>dirs := insert (os_path_dirname (output_path t)) (dirs w),
                    requests := requests w @ [(HEAD, url t)],
                    files := (files w)(output_path t @ ''.part'' := None)\<rparr>) = (Some e, w3)"
      and h: "handled e"
      and cl: "fault env (RemoveCleanup (output_path t @ ''.part'')) = None"
  shows "download_task env t w =
           (Returned,
            w\<lparr>dirs := insert (os_path_dirname (output_path t)) (dirs w),
              requests := requests w @ [(HEAD, url t), (GET, url t)],
              files := (files w)(output_path t @ ''.part'' := None),
              failures := failures w @ [(region t, url t, str_exc e)]\<rparr>)"
  using assms by (rule download_task_handled)

theorem download_task_records_handled_failure_witness:
  "download_task
     (ex_env (Inr (Length 3)) (Inl (Exc URLError ''<urlopen error timed out>'')) (\<lambda>c. None))
     ex_task empty_world
   = (Returned,
      empty_world\<lparr>dirs := {''out/train/dsm''},
                  requests := [(HEAD, ''http://host/tile_001.tif''),
                               (GET, ''http://host/tile_001.tif'')],
                  failures := [(''Alpha.1'', ''http://host/tile_001.tif'',
                                ''<urlopen error timed out>'')]\<rparr>)"
proof -
  let ?E = "ex_env (Inr (Length 3)) (Inl (Exc URLError ''<urlopen error timed out>'')) (\<lambda>c. None)"
  let ?e = "Exc URLError ''<urlopen error timed out>''"
  let ?w2 = "empty_world\<lparr>dirs := insert (os_path_dirname (output_path ex_task)) (dirs empty_world),
                    requests := requests empty_world @ [(HEAD, url ex_task)],
                    files := (files empty_world)(output_path ex_task @ ''.part'' := None)\<rparr>"
  have mk: "fault ?E (Makedirs (os_path_dirname (output_path ex_task))) = None"
    by (simp add: ex_env_def)
  have pr: "probe_remote_size ?E (url ex_task) = Inr (Some 3)"
    by (simp add: ex_env_def probe_remote_size_def get_remote_size_def)
  have nc: "\<not> already_complete empty_world (output_path ex_task) (Some 3)"
    by (simp add: already_complete_def empty_world_def)
  have st: "fault ?E (RemoveStale (output_path ex_task @ ''.part'')) = None"
    by (simp add: ex_env_def)
  have at: "attempt ?E ex_task (Some 3) ?w2 =
              (Some ?e, ?w2\<lparr>requests := requests ?w2 @ [(GET, url ex_task)]\<rparr>)"
    by (simp add: attempt_def ex_env_def Let_def)
  have h: "handled ?e" by (simp add: handled_def)
  have cl: "fault ?E (RemoveCleanup (output_path ex_task @ ''.part'')) = None"
    by (simp add: ex_env_def)
  show ?thesis
    using download_task_records_handled_failure[OF mk pr nc st at h cl]
    by (simp add: ex_task_def ex_dirname empty_world_def)
qed

lemma stale_staging_removal_run:
  "download_task
     (ex_env (Inr (Length 3)) (Inr [Chunk ''abc''])
        (\<lambda>c. if c = RemoveStale ''out/train/dsm/Alpha1_tile_001.tif.part''
             then Some (Exc IOError ''[Errno 13] Permission denied'') else None))
     ex_task
     (empty_world\<lparr>files := [''out/train/dsm/Alpha1_tile_001.tif.part'' \<mapsto> ''ab'']\<rparr>)
   = (Raised (Exc IOError ''[Errno 13] Permission denied''),
      empty_world\<lparr>files := [''out/train/dsm/Alpha1_tile_001.tif.part'' \<mapsto> ''ab''],
                  dirs := {''out/train/dsm''},
                  requests := [(HEAD, ''http://host/tile_001.tif'')]\<rparr>)"
  by (simp add: download_task_def Let_def ex_env_def ex_task_def empty_world_def ex_dirname
      probe_remote_size_def get_remote_size_def already_complete_def remove_if_exists_def)

text \<open>
  Claim C3 as stated fails: removing a stale staging file happens before the \<open>try\<close>, so
  an I/O failure there leaves the worker as an exception, with no failure recorded and
  the staging file still there.
\<close>

theorem stale_staging_removal_failure_propagates:
  "fst (download_task
     (ex_env (Inr (Length 3)) (Inr [Chunk ''abc''])
        (\<lambda>c. if c = RemoveStale ''out/train/dsm/Alpha1_tile_001.tif.part''
             then Some (Exc IOError ''[Errno 13] Permission denied'') else None))
     ex_task
     (empty_world\<lparr>files := [''out/train/dsm/Alpha1_tile_001.tif.part'' \<mapsto> ''ab'']\<rparr>))
   = Raised (Exc IOError ''[Errno 13] Permission denied'')
   \<and> failures (snd (download_task
     (ex_env (Inr (Length 3)) (Inr [Chunk ''abc''])
        (\<lambda>c. if c = RemoveStale ''out/train/dsm/Alpha1_tile_001.tif.part''
             then Some (Exc IOError ''[Errno 13] Permission denied'') else None))
     ex_task
     (empty_world\<lparr>files := [''out/train/dsm/Alpha1_tile_001.tif.part'' \<mapsto> ''ab'']\<rparr>)))
   = []
   \<and> files (snd (download_task
     (ex_env (Inr (Length 3)) (Inr [Chunk ''abc''])
        (\<lambda>c. if c = RemoveStale ''out/train/dsm/Alpha1_tile_001.tif.part''
             then Some (Exc IOError ''[Errno 13] Permission denied'') else None))
     ex_task
     (empty_world\<lparr>files := [''out/train/dsm/Alpha1_tile_001.tif.part'' \<mapsto> ''ab'']\<rparr>)))
       ''out/train/dsm/Alpha1_tile_001.tif.part''
   = Some ''ab''"
  unfolding stale_staging_removal_run by (simp add: empty_world_def)

text \<open>
  Claim C4, amended. When the transfer completes and the size of the staging file differs
  from the known remote size, the worker removes the staging file, leaves the destination
  as it was before the task (so without a file if there was none), records exactly one
  failure, whose reason is the size mismatch with both sizes, and has made one transfer
  only.
\<close>

theorem download_task_size_mismatch_failure:
  assumes mk: "fault env (Makedirs (os_path_dirname (output_path t))) = None"
      and pr: "probe_remote_size env (url t) = Inr (Some r)"
      and nc: "\<not> already_complete w (output_path t) (Some r)"
      and st: "fault env (RemoveStale (output_path t @ ''.part'')) = None"
      and gr: "get_response env (url t) = Inr body"
      and ow: "fault env (OpenWrite (output_path t @ ''.part'')) = None"
      and cp: "copy_chunks env (output_path t @ ''.part'') body [] = (None, data)"
      and gs: "fault env (Getsize (output_path t @ ''.part'')) = None"
      and ne: "int (length data) \<noteq> r"
      and cl: "fault env (RemoveCleanup (output_path t @ ''.part'')) = None"
  shows "download_task env t w =
           (Returned,
            w\<lparr>dirs := insert (os_path_dirname (output_path t)) (dirs w),
              requests := requests w @ [(HEAD, url t), (GET, url t)],
              files := (files w)(output_path t @ ''.part'' := None),
              failures := failures w @
                [(region t, url t,
                  ''size mismatch: expected '' @ str_int r @ '' got ''
                    @ str_int (int (length data)))]\<rparr>)"
  using assms by (rule download_task_size_mismatch)

theorem download_task_size_mismatch_failure_witness:
  "download_task (ex_env (Inr (Length 3)) (Inr [Chunk ''abcd'']) (\<lambda>c. None)) ex_task empty_world
   = (Returned,
      empty_world\<lparr>dirs := {''out/train/dsm''},
                  requests := [(HEAD, ''http://host/tile_001.tif''),
                               (GET, ''http://host/tile_001.tif'')],
                  failures := [(''Alpha.1'', ''http://host/tile_001.tif'',
                                ''size mismatch: expected 3 got 4'')]\<rparr>)"
proof -
  let ?E = "ex_env (Inr (Length 3)) (Inr [Chunk ''abcd'']) (\<lambda>c. None)"
  have mk: "fault ?E (Makedirs (os_path_dirname (output_path ex_task))) = None"
    by (simp add: ex_env_def)
  have pr: "probe_remote_size ?E (url ex_task) = Inr (Some 3)"
    by (simp add: ex_env_def probe_remote_size_def get_remote_size_def)
  have nc: "\<not> already_complete empty_world (output_path ex_task) (Some 3)"
    by (simp add: already_complete_def empty_world_def)
  have st: "fault ?E (RemoveStale (output_path ex_task @ ''.part'')) = None"
    by (simp add: ex_env_def)
  have gr: "get_response ?E (url ex_task) = Inr [Chunk ''abcd'']"
    by (simp add: ex_env_def)
  have ow: "fault ?E (OpenWrite (output_path ex_task @ ''.part'')) = None"
    by (simp add: ex_env_def)
  have cp: "copy_chunks ?E (output_path ex_task @ ''.part'') [Chunk ''abcd''] [] = (None, ''abcd'')"
    by (simp add: ex_env_def)
  have gs: "fault ?E (Getsize (output_path ex_task @ ''.part'')) = None"
    by (simp add: ex_env_def)
  have ne: "int (length ''abcd'') \<noteq> 3" by simp
  have cl: "fault ?E (RemoveCleanup (output_path ex_task @ ''.part'')) = None"
    by (simp add: ex_env_def)
  show ?thesis
    using download_task_size_mismatch_failure[OF mk pr nc st gr ow cp gs ne cl]
    by (simp add: ex_task_def ex_dirname empty_world_def ex_str_int)
qed

lemma size_mismatch_over_old_file_run:
  "download_task (ex_env (Inr (Length 3)) (Inr [Chunk ''abcd'']) (\<lambda>c. None)) ex_task
     (empty_world\<lparr>files := [''out/train/dsm/Alpha1_tile_001.tif'' \<mapsto> ''ab'']\<rparr>)
   = (Returned,
      empty_world\<lparr>files := [''out/train/dsm/Alpha1_tile_001.tif'' \<mapsto> ''ab''],
                  dirs := {''out/train/dsm''},
                  requests := [(HEAD, ''http://host/tile_001.tif''),
                               (GET, ''http://host/tile_001.tif'')],
                  failures := [(''Alpha.1'', ''http://host/tile_001.tif'',
                                ''size mismatch: expected 3 got 4'')]\<rparr>)"
  by (simp add: download_task_def Let_def ex_env_def ex_task_def empty_world_def ex_dirname
      probe_remote_size_def get_remote_size_def already_complete_def remove_if_exists_def
      attempt_def check_size_def os_replace_def handled_def ex_str_int fun_upd_twist)

text \<open>
  Claim C4 as stated fails: a file that was at the destination before the task, with
  another size than the remote one, is still there after the size mismatch.
\<close>

theorem size_mismatch_keeps_old_destination:
  "failures (snd (download_task (ex_env (Inr (Length 3)) (Inr [Chunk ''abcd'']) (\<lambda>c. None))
       ex_task (empty_world\<lparr>files := [''out/train/dsm/Alpha1_tile_001.tif'' \<mapsto> ''ab'']\<rparr>)))
   = [(''Alpha.1'', ''http://host/tile_001.tif'', ''size mismatch: expected 3 got 4'')]
   \<and> files (snd (download_task (ex_env (Inr (Length 3)) (Inr [Chunk ''abcd'']) (\<lambda>c. None))
       ex_task (empty_world\<lparr>files := [''out/train/dsm/Alpha1_tile_001.tif'' \<mapsto> ''ab'']\<rparr>)))
       ''out/train/dsm/Alpha1_tile_001.tif''
   = Some ''ab''"
  unfolding size_mismatch_over_old_file_run by (simp add: empty_world_def)

section \<open>Probing\<close>

text \<open>
  Claim C7. A \<open>URLError\<close> of the probe is taken as an unknown size, but that is the only
  class caught there: a timeout while reading the response of the \<open>HEAD\<close> request
  reaches \<open>download_task\<close> as a \<open>TimeoutError\<close>, which leaves the worker as an exception,
  before the skip check and with no download attempt.
\<close>

theorem probe_timeout_propagates:
  "download_task (ex_env (Inl (Exc TimeoutError ''timed out'')) (Inr [Chunk ''abc'']) (\<lambda>c. None))
     ex_task empty_world =
   (Raised (Exc TimeoutError ''timed out''),
    empty_world\<lparr>dirs := {''out/train/dsm''}, requests := [(HEAD, ''http://host/tile_001.tif'')]\<rparr>)"
  by (simp add: download_task_def ex_env_def ex_task_def empty_world_def ex_dirname
      probe_remote_size_def get_remote_size_def)

section \<open>The parent directory\<close>

text \<open>
  Claim C10. When \<open>os.makedirs\<close> does not raise, the parent directory of the destination
  exists after the task whatever happens next, and nothing else is added to the
  directories (none at all when it existed already). That holds when the task is skipped,
  where no file changes, and when it ends in a failure, where no file is written: the
  files are those from before, less the staging file. So a directory can be made and stay
  empty.
\<close>

theorem download_task_creates_parent_dir:
  assumes mk: "fault env (Makedirs (os_path_dirname (output_path t))) = None"
  shows "dirs (snd (download_task env t w)) = insert (os_path_dirname (output_path t)) (dirs w)
       \<and> (os_path_dirname (output_path t) \<in> dirs w \<longrightarrow> dirs (snd (download_task env t w)) = dirs w)
       \<and> (\<forall>rs. probe_remote_size env (url t) = Inr rs \<and> already_complete w (output_path t) rs
            \<longrightarrow> fst (download_task env t w) = Returned
                \<and> files (snd (download_task env t w)) = files w)
       \<and> (fst (download_task env t w) = Returned
            \<and> failures (snd (download_task env t w)) \<noteq> failures w
            \<longrightarrow> files (snd (download_task env t w)) = (files w)(output_path t @ ''.part'' := None))"
proof (intro conjI allI impI)
  show d: "dirs (snd (download_task env t w)) = insert (os_path_dirname (output_path t)) (dirs w)"
    by (rule download_task_dirs[OF mk])
  show "dirs (snd (download_task env t w)) = dirs w" if "os_path_dirname (output_path t) \<in> dirs w"
    using d that by (simp add: insert_absorb)
next
  fix rs
  assume a: "probe_remote_size env (url t) = Inr rs \<and> already_complete w (output_path t) rs"
  then have "download_task env t w =
     (Returned, w\<lparr>dirs := insert (os_path_dirname (output_path t)) (dirs w),
                  requests := requests w @ [(HEAD, url t)]\<rparr>)"
    using download_task_skip[OF mk] by blast
  then show "fst (download_task env t w) = Returned" "files (snd (download_task env t w)) = files w"
    by simp_all
next
  assume a: "fst (download_task env t w) = Returned
            \<and> failures (snd (download_task env t w)) \<noteq> failures w"
  then have "download_task env t w = (Returned, snd (download_task env t w))"
    by (metis prod.collapse)
  then show "files (snd (download_task env t w)) = (files w)(output_path t @ ''.part'' := None)"
    using a download_task_failure_files by blast
qed

theorem download_task_creates_parent_dir_witness:
  "dirs (snd (download_task (ex_env (Inr (Length 3)) (Inr [Chunk ''abc'']) (\<lambda>c. None)) ex_task
            (empty_world\<lparr>files := [''out/train/dsm/Alpha1_tile_001.tif'' \<mapsto> ''abc'']\<rparr>)))
     = {''out/train/dsm''}
   \<and> files (snd (download_task (ex_env (Inr (Length 3)) (Inr [Chunk ''abc'']) (\<lambda>c. None)) ex_task
            (empty_world\<lparr>files := [''out/train/dsm/Alpha1_tile_001.tif'' \<mapsto> ''abc'']\<rparr>)))
     = [''out/train/dsm/Alpha1_tile_001.tif'' \<mapsto> ''abc'']
   \<and> dirs (snd (download_task
              (ex_env (Inr NoHeader) (Inl (Exc URLError ''HTTP Error 404: Not Found'')) (\<lambda>c. None))
              ex_task empty_world))
     = {''out/train/dsm''}
   \<and> files (snd (download_task
              (ex_env (Inr NoHeader) (Inl (Exc URLError ''HTTP Error 404: Not Found'')) (\<lambda>c. None))
              ex_task empty_world))
     = Map.empty
   \<and> dirs (snd (download_task
              (ex_env (Inr NoHeader) (Inl (Exc URLError ''HTTP Error 404: Not Found'')) (\<lambda>c. None))
              ex_task (empty_world\<lparr>dirs := {''out/train/dsm''}\<rparr>)))
     = {''out/train/dsm''}"
proof -
  let ?E = "ex_env (Inr (Length 3)) (Inr [Chunk ''abc'']) (\<lambda>c. None)"
  let ?W = "empty_world\<lparr>files := [''out/train/dsm/Alpha1_tile_001.tif'' \<mapsto> ''abc'']\<rparr>"
  let ?F = "ex_env (Inr NoHeader) (Inl (Exc URLError ''HTTP Error 404: Not Found'')) (\<lambda>c. None)"
  have mkE: "fault ?E (Makedirs (os_path_dirname (output_path ex_task))) = None"
    by (simp add: ex_env_def)
  have mkF: "fault ?F (Makedirs (os_path_dirname (output_path ex_task))) = None"
    by (simp add: ex_env_def)
  have sk: "probe_remote_size ?E (url ex_task) = Inr (Some 3)
            \<and> already_complete ?W (output_path ex_task) (Some 3)"
    by (simp add: ex_env_def probe_remote_size_def get_remote_size_def already_complete_def
        ex_task_def)
  have fl: "fst (download_task ?F ex_task empty_world) = Returned
            \<and> failures (snd (download_task ?F ex_task empty_world)) \<noteq> failures empty_world"
    by (simp add: download_task_def Let_def ex_env_def ex_task_def empty_world_def ex_dirname
      probe_remote_size_def get_remote_size_def already_complete_def remove_if_exists_def
      attempt_def handled_def)
  note E = download_task_creates_parent_dir[OF mkE, of ?W]
  note F = download_task_creates_parent_dir[OF mkF, of empty_world]
  have 1: "dirs (snd (download_task ?E ex_task ?W)) = {''out/train/dsm''}"
    using E[THEN conjunct1] by (simp add: ex_task_def ex_dirname empty_world_def)
  have "fst (download_task ?E ex_task ?W) = Returned
                \<and> files (snd (download_task ?E ex_task ?W)) = files ?W"
    using E[THEN conjunct2, THEN conjunct2, THEN conjunct1, THEN spec, of "Some 3"] sk by (rule mp)
  then have 2: "files (snd (download_task ?E ex_task ?W))
     = [''out/train/dsm/Alpha1_tile_001.tif'' \<mapsto> ''abc'']"
    by (simp add: empty_world_def)
  have 3: "dirs (snd (download_task ?F ex_task empty_world)) = {''out/train/dsm''}"
    using F[THEN conjunct1] by (simp add: ex_task_def ex_dirname empty_world_def)
  have "files (snd (download_task ?F ex_task empty_world))
          = (files empty_world)(output_path ex_task @ ''.part'' := None)"
    using F[THEN conjunct2, THEN conjunct2, THEN conjunct2] fl by (rule mp)
  then have 4: "files (snd (download_task ?F ex_task empty_world)) = Map.empty"
    by (simp add: empty_world_def)
  have ex: "os_path_dirname (output_path ex_task) \<in> dirs (empty_world\<lparr>dirs := {''out/train/dsm''}\<rparr>)"
    by (simp add: ex_task_def ex_dirname)
  have "dirs (snd (download_task ?F ex_task (empty_world\<lparr>dirs := {''out/train/dsm''}\<rparr>)))
          = dirs (empty_world\<lparr>dirs := {''out/train/dsm''}\<rparr>)"
    using download_task_creates_parent_dir[OF mkF, of "empty_world\<lparr>dirs := {''out/train/dsm''}\<rparr>",
        THEN conjunct2, THEN conjunct1] ex
    by (rule mp)
  then have 5: "dirs (snd (download_task ?F ex_task (empty_world\<lparr>dirs := {''out/train/dsm''}\<rparr>)))
          = {''out/train/dsm''}"
    by simp
  show ?thesis
    by (intro conjI) (rule 1, rule 2, rule 3, rule 4, rule 5)
qed

section \<open>The failure log\<close>

lemma str_split_nonempty: "str_split sep s \<noteq> []"
  by (induction s) (auto split: list.splits)





lemma log_line_eq:
  "log_line (r, u, m) = (r @ [CHR 0x09] @ u @ [CHR 0x09] @ m) @ [CHR 0x0A]"
  by (simp add: log_line_def)





lemma report_frame:
  "dirs (snd (report env log_file missing w)) = dirs w"
  "requests (snd (report env log_file missing w)) = requests w"
  by (auto simp: report_def Let_def split: option.splits)

lemma report_raises:
  assumes "failures w @ map missing_failure missing \<noteq> []"
      and "fault env (OpenLog log_file) = Some e"
  shows "fst (report env log_file missing w) = Raised e"
  using assms by (auto simp: report_def Let_def)













section \<open>Running twice\<close>

lemma download_task_completed:
  assumes ret: "download_task env t w = (Returned, w')"
      and fl: "failures w' = failures w"
  shows "fault env (Makedirs (os_path_dirname (output_path t))) = None"
    and "dirs w' = insert (os_path_dirname (output_path t)) (dirs w)"
    and "\<exists>rs. probe_remote_size env (url t) = Inr rs \<and>
          ((already_complete w (output_path t) rs \<and> files w' = files w) \<or>
           (\<exists>data. files w' = ((files w)(output_path t @ ''.part'' := None))(output_path t \<mapsto> data)
               \<and> (case rs of None \<Rightarrow> True | Some r \<Rightarrow> int (length data) = r)))"
proof -
  let ?d = "os_path_dirname (output_path t)"
  let ?tmp = "output_path t @ ''.part''"
  let ?w1 = "w\<lparr>dirs := insert ?d (dirs w), requests := requests w @ [(HEAD, url t)]\<rparr>"
  show mk: "fault env (Makedirs ?d) = None"
    using ret download_task_makedirs_raises[of env t _ w] by (cases "fault env (Makedirs ?d)") auto
  show "dirs w' = insert ?d (dirs w)"
    using download_task_dirs[OF mk, of w] ret by simp
  obtain rs where pr: "probe_remote_size env (url t) = Inr rs"
    using ret download_task_probe_raises[OF mk, of _ w] by (cases "probe_remote_size env (url t)") auto
  show "\<exists>rs. probe_remote_size env (url t) = Inr rs \<and>
          ((already_complete w (output_path t) rs \<and> files w' = files w) \<or>
           (\<exists>data. files w' = ((files w)(?tmp := None))(output_path t \<mapsto> data)
               \<and> (case rs of None \<Rightarrow> True | Some r \<Rightarrow> int (length data) = r)))"
  proof (cases "already_complete w (output_path t) rs")
    case True
    then show ?thesis using download_task_skip[OF mk pr True] ret pr by auto
  next
    case nc: False
    obtain w2 where w2: "remove_if_exists env (RemoveStale ?tmp) ?tmp ?w1 = Inr w2"
      using ret download_task_stale_raises[OF mk pr nc, of _]
      by (cases "remove_if_exists env (RemoveStale ?tmp) ?tmp ?w1") auto
    have f2: "files w2 = (files w)(?tmp := None)" "failures w2 = failures w"
      using remove_if_exists_frame(1,3)[OF w2] by simp_all
    obtain x w3 where a: "attempt env t rs w2 = (x, w3)" by (cases "attempt env t rs w2")
    have fw3: "failures w3 = failures w" using attempt_frame(2)[of env t rs w2] a f2 by simp
    have x: "x = None \<and> w' = w3"
    proof (cases x)
      case None
      then show ?thesis using ret[unfolded download_task_fetch[OF mk pr nc w2] a] by simp
    next
      case (Some e)
      then have False
        using ret[unfolded download_task_fetch[OF mk pr nc w2] a] fl fw3
        by (auto split: if_splits sum.splits dest: remove_if_exists_frame(3))
      then show ?thesis ..
    qed
    then have "attempt env t rs w2 = (None, w')" using a by simp
    from attempt_done_files[OF this] f2 pr show ?thesis by auto
  qed
qed

lemma download_task_failures_mono:
  "\<exists>xs. failures (snd (download_task env t w)) = failures w @ xs"
proof -
  let ?d = "os_path_dirname (output_path t)"
  let ?tmp = "output_path t @ ''.part''"
  let ?w1 = "w\<lparr>dirs := insert ?d (dirs w), requests := requests w @ [(HEAD, url t)]\<rparr>"
  show ?thesis
  proof (cases "fault env (Makedirs ?d)")
    case (Some e)
    then show ?thesis using download_task_makedirs_raises[OF Some, of w] by simp
  next
    case mk: None
    show ?thesis
    proof (cases "probe_remote_size env (url t)")
      case (Inl e)
      then show ?thesis using download_task_probe_raises[OF mk Inl, of w] by simp
    next
      case pr: (Inr rs)
      show ?thesis
      proof (cases "already_complete w (output_path t) rs")
        case True
        then show ?thesis using download_task_skip[OF mk pr True] by simp
      next
        case nc: False
        show ?thesis
        proof (cases "remove_if_exists env (RemoveStale ?tmp) ?tmp ?w1")
          case (Inl e)
          then show ?thesis using download_task_stale_raises[OF mk pr nc Inl] by simp
        next
          case w2: (Inr w2)
          have f2: "failures w2 = failures w"
            using remove_if_exists_frame(3)[OF w2] by simp
          obtain x w3 where a: "attempt env t rs w2 = (x, w3)" by (cases "attempt env t rs w2")
          have fw3: "failures w3 = failures w" using attempt_frame(2)[of env t rs w2] a f2 by simp
          show ?thesis
            unfolding download_task_fetch[OF mk pr nc w2] a
            using fw3 by (auto split: option.splits sum.splits dest: remove_if_exists_frame(3))
        qed
      qed
    qed
  qed
qed

lemma run_tasks_failures_mono:
  "\<exists>xs. failures (snd (run_tasks env ts w)) = failures w @ xs"
proof (induction ts arbitrary: w)
  case Nil
  then show ?case by simp
next
  case (Cons t ts)
  obtain o1 w' where d: "download_task env t w = (o1, w')" by (cases "download_task env t w")
  obtain xs where xs: "failures w' = failures w @ xs"
    using download_task_failures_mono[of env t w] d by auto
  obtain ys where ys: "failures (snd (run_tasks env ts w')) = failures w' @ ys"
    using Cons.IH by blast
  have "failures (snd (run_tasks env (t # ts) w)) = failures (snd (run_tasks env ts w'))"
    using d by (cases o1) simp_all
  then show ?case using xs ys by simp
qed

lemma run_tasks_Cons_None:
  assumes "run_tasks env (t # ts) w = (None, w'')"
  obtains w' where "download_task env t w = (Returned, w')" "run_tasks env ts w' = (None, w'')"
proof -
  obtain o1 w' where d: "download_task env t w = (o1, w')" by (cases "download_task env t w")
  show ?thesis
  proof (cases o1)
    case Returned
    then show ?thesis using assms d that by simp
  next
    case (Raised e)
    then show ?thesis using assms d by simp
  qed
qed

lemma completed_at_self:
  assumes ret: "download_task env t w = (Returned, w')"
      and fl: "failures w' = failures w"
  shows "completed_at env w' t"
proof -
  note c = download_task_completed[OF ret fl]
  from c(3) obtain rs where pr: "probe_remote_size env (url t) = Inr rs"
    and alt: "(already_complete w (output_path t) rs \<and> files w' = files w) \<or>
           (\<exists>data. files w' = ((files w)(output_path t @ ''.part'' := None))(output_path t \<mapsto> data)
               \<and> (case rs of None \<Rightarrow> True | Some r \<Rightarrow> int (length data) = r))"
    by blast
  have "\<exists>data. files w' (output_path t) = Some data \<and>
        (case rs of None \<Rightarrow> True | Some r \<Rightarrow> int (length data) = r)"
    using alt
  proof
    assume "already_complete w (output_path t) rs \<and> files w' = files w"
    then show ?thesis by (auto simp: already_complete_def Let_def split: option.splits)
  next
    assume "\<exists>data. files w' = ((files w)(output_path t @ ''.part'' := None))(output_path t \<mapsto> data)
               \<and> (case rs of None \<Rightarrow> True | Some r \<Rightarrow> int (length data) = r)"
    then show ?thesis by auto
  qed
  then show ?thesis using c(1,2) pr by (auto simp: completed_at_def)
qed

lemma completed_at_other:
  assumes ret: "download_task env t w = (Returned, w')"
      and fl: "failures w' = failures w"
      and p: "completed_at env w p"
      and su: "output_path p = output_path t \<longrightarrow> url p = url t"
      and st: "output_path t @ ''.part'' \<noteq> output_path p"
  shows "completed_at env w' p"
proof (cases "output_path p = output_path t")
  case True
  then have u: "url p = url t" using su by simp
  have "completed_at env w' t" using completed_at_self[OF ret fl] .
  then show ?thesis using True u by (simp add: completed_at_def)
next
  case False
  note c = download_task_completed[OF ret fl]
  have "files w' (output_path p) = files w (output_path p)"
    using c(3) False st by auto
  moreover have "dirs w \<subseteq> dirs w'" using c(2) by auto
  ultimately show ?thesis using p by (auto simp: completed_at_def)
qed

lemma first_run_completes:
  assumes "run_tasks env ts w = (None, w')"
      and "failures w' = failures w"
      and "\<forall>p\<in>P. completed_at env w p"
      and "\<forall>a\<in>P \<union> set ts. \<forall>b\<in>set ts. output_path a = output_path b \<longrightarrow> url a = url b"
      and "\<forall>a\<in>P \<union> set ts. \<forall>b\<in>set ts. output_path b @ ''.part'' \<noteq> output_path a"
  shows "\<forall>p\<in>P \<union> set ts. completed_at env w' p"
  using assms
proof (induction ts arbitrary: w P)
  case Nil
  then show ?case by simp
next
  case (Cons t ts)
  from Cons.prems(1) obtain wa where d: "download_task env t w = (Returned, wa)"
    and r: "run_tasks env ts wa = (None, w')"
    by (rule run_tasks_Cons_None)
  obtain xs where xs: "failures wa = failures w @ xs"
    using download_task_failures_mono[of env t w] d by auto
  obtain ys where ys: "failures w' = failures wa @ ys"
    using run_tasks_failures_mono[of env ts wa] r by auto
  have fa: "failures wa = failures w" using xs ys Cons.prems(2) by simp
  have fb: "failures w' = failures wa" using fa Cons.prems(2) by simp
  have self: "completed_at env wa t" using completed_at_self[OF d fa] .
  have others: "completed_at env wa p" if "p \<in> P" for p
  proof -
    have pm: "p \<in> P \<union> set (t # ts)" and tm: "t \<in> set (t # ts)" using that by simp_all
    have "completed_at env w p" using Cons.prems(3) that by blast
    moreover have "output_path p = output_path t \<longrightarrow> url p = url t"
      using Cons.prems(4) pm tm by blast
    moreover have "output_path t @ ''.part'' \<noteq> output_path p"
      using Cons.prems(5) pm tm by blast
    ultimately show ?thesis using completed_at_other[OF d fa] by blast
  qed
  have inv: "\<forall>p\<in>insert t P. completed_at env wa p" using self others by blast
  have h4: "\<forall>a\<in>insert t P \<union> set ts. \<forall>b\<in>set ts. output_path a = output_path b \<longrightarrow> url a = url b"
  proof (intro ballI impI)
    fix a b
    assume "a \<in> insert t P \<union> set ts" "b \<in> set ts" "output_path a = output_path b"
    moreover from this have "a \<in> P \<union> set (t # ts)" "b \<in> set (t # ts)" by auto
    ultimately show "url a = url b" using Cons.prems(4) by blast
  qed
  have h5: "\<forall>a\<in>insert t P \<union> set ts. \<forall>b\<in>set ts. output_path b @ ''.part'' \<noteq> output_path a"
  proof (intro ballI)
    fix a b
    assume "a \<in> insert t P \<union> set ts" "b \<in> set ts"
    then have "a \<in> P \<union> set (t # ts)" "b \<in> set (t # ts)" by auto
    then show "output_path b @ ''.part'' \<noteq> output_path a" using Cons.prems(5) by blast
  qed
  have "\<forall>p\<in>insert t P \<union> set ts. completed_at env w' p"
    using Cons.IH[OF r fb inv h4 h5] .
  then show ?case by simp
qed

lemma completed_at_skips:
  assumes c: "completed_at env w t"
      and ne: "probe_remote_size env (url t) = Inr None \<longrightarrow> files w (output_path t) \<noteq> Some []"
  shows "download_task env t w = (Returned, w\<lparr>requests := requests w @ [(HEAD, url t)]\<rparr>)"
proof -
  from c obtain rs data where mk: "fault env (Makedirs (os_path_dirname (output_path t))) = None"
    and d: "os_path_dirname (output_path t) \<in> dirs w"
    and pr: "probe_remote_size env (url t) = Inr rs"
    and f: "files w (output_path t) = Some data"
    and sz: "case rs of None \<Rightarrow> True | Some r \<Rightarrow> int (length data) = r"
    by (auto simp: completed_at_def)
  have ac: "already_complete w (output_path t) rs"
    using f sz ne pr by (cases rs) (auto simp: already_complete_def)
  have "insert (os_path_dirname (output_path t)) (dirs w) = dirs w" using d by auto
  then show ?thesis using download_task_skip[OF mk pr ac] by simp
qed

lemma completed_at_cong:
  assumes "completed_at env w t" "files w' (output_path t) = files w (output_path t)" "dirs w' = dirs w"
  shows "completed_at env w' t"
  using assms by (simp add: completed_at_def)

lemma second_run_skips:
  assumes "\<forall>t\<in>set ts. completed_at env w t"
      and "\<forall>t\<in>set ts. probe_remote_size env (url t) = Inr None \<longrightarrow> files w (output_path t) \<noteq> Some []"
  shows "run_tasks env ts w = (None, w\<lparr>requests := requests w @ map (\<lambda>t. (HEAD, url t)) ts\<rparr>)"
  using assms
proof (induction ts arbitrary: w)
  case Nil
  then show ?case by simp
next
  case (Cons t ts)
  let ?wa = "w\<lparr>requests := requests w @ [(HEAD, url t)]\<rparr>"
  have d: "download_task env t w = (Returned, ?wa)"
    using completed_at_skips[of env w t] Cons.prems by simp
  have 1: "\<forall>t\<in>set ts. completed_at env ?wa t"
    using Cons.prems(1) completed_at_cong[of env w _ ?wa] by simp
  have 2: "\<forall>t\<in>set ts. probe_remote_size env (url t) = Inr None \<longrightarrow> files ?wa (output_path t) \<noteq> Some []"
    using Cons.prems(2) by simp
  show ?case using d Cons.IH[OF 1 2] by simp
qed

lemma second_run_tasks_downloads_nothing:
  assumes run1: "run_tasks env tasks w0 = (None, w1)"
      and nofail: "failures w1 = failures w0"
      and same_url: "\<forall>a\<in>set tasks. \<forall>b\<in>set tasks. output_path a = output_path b \<longrightarrow> url a = url b"
      and staging: "\<forall>a\<in>set tasks. \<forall>b\<in>set tasks. output_path b @ ''.part'' \<noteq> output_path a"
      and nonempty: "\<forall>t\<in>set tasks. probe_remote_size env (url t) = Inr None
                        \<longrightarrow> files w1 (output_path t) \<noteq> Some []"
  shows "run_tasks env tasks w1 =
           (None, w1\<lparr>requests := requests w1 @ map (\<lambda>t. (HEAD, url t)) tasks\<rparr>)"
proof -
  have "\<forall>p\<in>{} \<union> set tasks. completed_at env w1 p"
  proof (rule first_run_completes[OF run1 nofail])
    show "\<forall>p\<in>{}. completed_at env w0 p" by simp
    show "\<forall>a\<in>{} \<union> set tasks. \<forall>b\<in>set tasks. output_path a = output_path b \<longrightarrow> url a = url b"
      unfolding Un_empty_left by (rule same_url)
    show "\<forall>a\<in>{} \<union> set tasks. \<forall>b\<in>set tasks. output_path b @ ''.part'' \<noteq> output_path a"
      unfolding Un_empty_left by (rule staging)
  qed
  then have c: "\<forall>p\<in>set tasks. completed_at env w1 p"
    unfolding Un_empty_left .
  show ?thesis by (rule second_run_skips[OF c nonempty])
qed





end
